theory Spec2Isabelle
  imports Complex_Main
begin

section \<open>tap-outbrain: the incremental sync engine\<close>

text \<open>
  A shallow embedding of \<^verbatim>\<open>tap_outbrain/__init__.py\<close>: the date-window planner
  (\<^verbatim>\<open>get_date_ranges\<close>), the request gateway (\<^verbatim>\<open>request\<close> under its
  \<^verbatim>\<open>backoff.on_exception\<close> decorator), the windowed performance sync
  (\<^verbatim>\<open>sync_performance\<close>) and the campaign paginator (\<^verbatim>\<open>get_campaign_pages\<close>).
  Exceptions are values of the type \<open>error\<close>; everything the code reads from outside
  (the clock, the HTTP transport, the random jitter) is a field of an explicit \<open>world\<close>
  that every effectful function takes and returns.
\<close>

subsection \<open>Exceptions\<close>

datatype error =
    OverflowError
  | ValueError
  | TypeError
  | IndexError
  | KeyError
  | JSONDecodeError
  | ConnectionError
  | HTTPError int
  | TooManyCampaigns int

subsection \<open>Dates\<close>

text \<open>
  A \<^verbatim>\<open>datetime.date\<close> is represented by its proleptic Gregorian ordinal
  (\<^verbatim>\<open>date.toordinal()\<close>): Python orders dates as it orders their ordinals and defines
  \<^verbatim>\<open>date + timedelta\<close> on the ordinal. Valid dates are \<open>1 .. MAXORDINAL\<close>
  (0001-01-01 to 9999-12-31).
\<close>

type_synonym date = int

definition MAXORDINAL :: int where
  "MAXORDINAL = 3652059"

definition is_leap :: "int \<Rightarrow> bool" where
  "is_leap y = (y mod 4 = 0 \<and> (y mod 100 \<noteq> 0 \<or> y mod 400 = 0))"

definition days_before_year :: "int \<Rightarrow> int" where
  "days_before_year year =
     (let y = year - 1 in y * 365 + y div 4 - y div 100 + y div 400)"

definition days_in_month :: "int \<Rightarrow> int \<Rightarrow> int" where
  "days_in_month year month =
     (if month = 2 \<and> is_leap year then 29
      else [31, 28, 31, 30, 31, 30, 31, 31, 30, 31, 30, 31] ! nat (month - 1))"

definition days_before_month :: "int \<Rightarrow> int \<Rightarrow> int" where
  "days_before_month year month =
     [0, 31, 59, 90, 120, 151, 181, 212, 243, 273, 304, 334] ! nat (month - 1)
       + (if month > 2 \<and> is_leap year then 1 else 0)"

definition ymd2ord :: "int \<Rightarrow> int \<Rightarrow> int \<Rightarrow> date" where
  "ymd2ord year month day = days_before_year year + days_before_month year month + day"

text \<open>\<^verbatim>\<open>date(year, month, day)\<close>: the constructor checks its fields.\<close>

definition mk_date :: "int \<Rightarrow> int \<Rightarrow> int \<Rightarrow> error + date" where
  "mk_date year month day =
     (if \<not> (1 \<le> year \<and> year \<le> 9999) then Inl ValueError
      else if \<not> (1 \<le> month \<and> month \<le> 12) then Inl ValueError
      else if \<not> (1 \<le> day \<and> day \<le> days_in_month year month) then Inl ValueError
      else Inr (ymd2ord year month day))"

text \<open>
  \<^verbatim>\<open>d + datetime.timedelta(days=n)\<close>: the timedelta constructor refuses more than
  999999999 days, the sum refuses a result outside the valid dates.
\<close>

definition date_add_days :: "date \<Rightarrow> int \<Rightarrow> error + date" where
  "date_add_days d n =
     (if \<bar>n\<bar> > 999999999 then Inl OverflowError
      else if 0 < d + n \<and> d + n \<le> MAXORDINAL then Inr (d + n)
      else Inl OverflowError)"

subsection \<open>\<^verbatim>\<open>strptime(s, '%Y-%m-%d')\<close>\<close>

text \<open>
  The format compiles to the regular expression
  \<^verbatim>\<open>(?P<Y>\d\d\d\d)-(?P<m>1[0-2]|0[1-9]|[1-9])-(?P<d>3[0-1]|[1-2]\d|0[1-9]|[1-9]| [1-9])\<close>,
  matched at the start of the string; the match must consume the whole string. Each
  matcher returns its alternatives in the order the regular expression tries them, and
  the first complete match wins.
\<close>

definition is_digit :: "char \<Rightarrow> bool" where
  "is_digit c = (48 \<le> (of_char c :: nat) \<and> (of_char c :: nat) \<le> 57)"

definition digit_val :: "char \<Rightarrow> int" where
  "digit_val c = int (of_char c) - 48"

definition in_range :: "char \<Rightarrow> int \<Rightarrow> int \<Rightarrow> bool" where
  "in_range c lo hi = (is_digit c \<and> lo \<le> digit_val c \<and> digit_val c \<le> hi)"

fun match_Y :: "string \<Rightarrow> (int \<times> string) list" where
  "match_Y (a # b # c # d # rest) =
     (if is_digit a \<and> is_digit b \<and> is_digit c \<and> is_digit d
      then [(1000 * digit_val a + 100 * digit_val b + 10 * digit_val c + digit_val d, rest)]
      else [])"
| "match_Y _ = []"

fun match_dash :: "string \<Rightarrow> string list" where
  "match_dash (c # rest) = (if c = CHR ''-'' then [rest] else [])"
| "match_dash [] = []"

definition two_digits :: "int \<Rightarrow> int \<Rightarrow> int \<Rightarrow> int \<Rightarrow> string \<Rightarrow> (int \<times> string) list" where
  "two_digits lo1 hi1 lo2 hi2 s =
     (case s of
        a # b # rest \<Rightarrow>
          (if in_range a lo1 hi1 \<and> in_range b lo2 hi2
           then [(10 * digit_val a + digit_val b, rest)] else [])
      | _ \<Rightarrow> [])"

definition one_digit :: "string \<Rightarrow> (int \<times> string) list" where
  "one_digit s =
     (case s of
        a # rest \<Rightarrow> (if in_range a 1 9 then [(digit_val a, rest)] else [])
      | _ \<Rightarrow> [])"

definition space_digit :: "string \<Rightarrow> (int \<times> string) list" where
  "space_digit s =
     (case s of
        a # b # rest \<Rightarrow>
          (if a = CHR '' '' \<and> in_range b 1 9 then [(digit_val b, rest)] else [])
      | _ \<Rightarrow> [])"

definition match_m :: "string \<Rightarrow> (int \<times> string) list" where
  "match_m s = two_digits 1 1 0 2 s @ two_digits 0 0 1 9 s @ one_digit s"

definition match_d :: "string \<Rightarrow> (int \<times> string) list" where
  "match_d s =
     two_digits 3 3 0 1 s @ two_digits 1 2 0 9 s @ two_digits 0 0 1 9 s
       @ one_digit s @ space_digit s"

definition match_ymd :: "string \<Rightarrow> ((int \<times> int \<times> int) \<times> string) list" where
  "match_ymd s =
     concat (map (\<lambda>(y, r1).
       concat (map (\<lambda>r2.
         concat (map (\<lambda>(m, r3).
           concat (map (\<lambda>r4.
             map (\<lambda>(d, r5). ((y, m, d), r5)) (match_d r4))
           (match_dash r3)))
         (match_m r2)))
       (match_dash r1)))
     (match_Y s))"

definition strptime_ymd :: "string \<Rightarrow> error + date" where
  "strptime_ymd s =
     (case match_ymd s of
        [] \<Rightarrow> Inl ValueError
      | ((y, m, d), rest) # _ \<Rightarrow>
          (if rest \<noteq> [] then Inl ValueError else mk_date y m d))"

subsection \<open>The date-window planner\<close>

record date_range =
  from_date :: date
  to_date :: date

text \<open>
  The \<^verbatim>\<open>while interval_start < end\<close> loop of \<^verbatim>\<open>get_date_ranges\<close>. With
  \<^verbatim>\<open>interval_in_days = 0\<close> the loop never advances, so the loop is a partial
  function: \<open>None\<close> is "does not return".
\<close>

partial_function (option) date_ranges_loop ::
  "date \<Rightarrow> date \<Rightarrow> int \<Rightarrow> date_range list \<Rightarrow> (error + date_range list) option" where
  "date_ranges_loop interval_start end interval_in_days to_return =
     (if interval_start < end then
        (case date_add_days interval_start (interval_in_days - 1) of
           Inl e \<Rightarrow> Some (Inl e)
         | Inr hi \<Rightarrow>
             (case date_add_days interval_start interval_in_days of
                Inl e \<Rightarrow> Some (Inl e)
              | Inr nxt \<Rightarrow>
                  date_ranges_loop nxt end interval_in_days
                    (to_return @ [\<lparr>from_date = interval_start, to_date = min end hi\<rparr>])))
      else Some (Inr to_return))"

definition get_date_ranges ::
  "date \<Rightarrow> date \<Rightarrow> int \<Rightarrow> (error + date_range list) option" where
  "get_date_ranges start end interval_in_days =
     (if start > end then Some (Inr [])
      else date_ranges_loop start end interval_in_days [])"

subsection \<open>Python values\<close>

text \<open>
  A Python float is a double: a finite value, given by the real it is, an infinity or
  a NaN (\<^verbatim>\<open>json.loads\<close> reads \<^verbatim>\<open>Infinity\<close>, \<^verbatim>\<open>NaN\<close> and literals beyond the
  range of a double as such).
\<close>

datatype pyfloat = Finite real | PosInf | NegInf | NaN

text \<open>
  What \<^verbatim>\<open>json.loads\<close> gives for the value of a metric: \<^verbatim>\<open>None\<close>, a bool, an int of
  any size or a float. Strings, arrays and objects are left out of the type.
\<close>

datatype pynum = NNone | NBool bool | NInt int | NFloat pyfloat

datatype pyval =
  PyNone | PyStr string | PyInt int | PyFloat pyfloat | PyBool bool | PyDate date

type_synonym pydict = "string \<rightharpoonup> pyval"

text \<open>The first exception raised ends a sequence of evaluations.\<close>

definition then_do :: "error + 'a \<Rightarrow> ('a \<Rightarrow> error + 'b) \<Rightarrow> error + 'b" where
  "then_do r f = (case r of Inl e \<Rightarrow> Inl e | Inr x \<Rightarrow> f x)"

text \<open>
  \<^verbatim>\<open>int(x)\<close> truncates a finite float towards zero and raises OverflowError on an
  infinity, ValueError on a NaN and TypeError on \<^verbatim>\<open>None\<close>.
\<close>

definition py_int :: "pynum \<Rightarrow> error + int" where
  "py_int x =
     (case x of
        NNone \<Rightarrow> Inl TypeError
      | NBool b \<Rightarrow> Inr (if b then 1 else 0)
      | NInt i \<Rightarrow> Inr i
      | NFloat (Finite r) \<Rightarrow> Inr (if 0 \<le> r then \<lfloor>r\<rfloor> else \<lceil>r\<rceil>)
      | NFloat PosInf \<Rightarrow> Inl OverflowError
      | NFloat NegInf \<Rightarrow> Inl OverflowError
      | NFloat NaN \<Rightarrow> Inl ValueError)"

text \<open>
  \<^verbatim>\<open>float(i)\<close> of an int is the double nearest to it, ties to the even significand of
  53 bits, and OverflowError when that is \<open>2 ^ 1024\<close> or more. \<open>bit_length\<close> is
  \<^verbatim>\<open>int.bit_length\<close>.
\<close>

fun bit_length :: "nat \<Rightarrow> nat" where
  "bit_length n = (if n = 0 then 0 else Suc (bit_length (n div 2)))"

declare bit_length.simps [simp del]

definition float_of_int :: "int \<Rightarrow> error + pyfloat" where
  "float_of_int i =
     (let a = nat \<bar>i\<bar>;
          e = bit_length a - 53;
          q = a div 2 ^ e;
          r = a mod 2 ^ e;
          q' = (if 2 ^ e < 2 * r \<or> (2 * r = 2 ^ e \<and> odd q) then q + 1 else q);
          v = q' * 2 ^ e
      in if 2 ^ 1024 \<le> v then Inl OverflowError
         else Inr (Finite (if i < 0 then - real v else real v)))"

text \<open>\<^verbatim>\<open>float(x)\<close>: a float is returned as it is, \<^verbatim>\<open>None\<close> raises TypeError.\<close>

definition py_float :: "pynum \<Rightarrow> error + pyfloat" where
  "py_float x =
     (case x of
        NNone \<Rightarrow> Inl TypeError
      | NBool b \<Rightarrow> Inr (Finite (if b then 1 else 0))
      | NInt i \<Rightarrow> float_of_int i
      | NFloat f \<Rightarrow> Inr f)"

text \<open>\<^verbatim>\<open>d.get(k)\<close> and \<^verbatim>\<open>d.get(k, default)\<close>.\<close>

definition dict_get :: "pydict \<Rightarrow> string \<Rightarrow> pyval" where
  "dict_get d k = (case d k of None \<Rightarrow> PyNone | Some v \<Rightarrow> v)"

definition get_default :: "('k \<rightharpoonup> 'v) \<Rightarrow> 'k \<Rightarrow> 'v \<Rightarrow> 'v" where
  "get_default d k dflt = (case d k of None \<Rightarrow> dflt | Some v \<Rightarrow> v)"

subsection \<open>Responses of the remote API\<close>

text \<open>
  One row of a report: its \<^verbatim>\<open>metrics\<close> object (values by name; an absent object is
  the empty one) and its \<^verbatim>\<open>metadata\<close> object.
\<close>

record result =
  metrics :: "string \<rightharpoonup> pynum"
  metadata :: pydict

text \<open>
  A JSON response body, as the keys the code reads: \<open>None\<close> is an absent key.
\<close>

record json =
  totalCount :: "int option"
  campaigns :: "pydict list option"
  totalResults :: "int option"
  results :: "result list option"

record http_request =
  url :: string
  headers :: "(string \<times> string) list"
  params :: pydict

text \<open>
  What \<^verbatim>\<open>SESSION.send\<close> does: it raises a connection error, or returns a response
  with a status code and a body (\<open>None\<close> when the body is not JSON).
\<close>

datatype reply = NoReply | Reply int "json option"

record response =
  status_code :: int
  content :: "json option"

subsection \<open>The world\<close>

type_synonym state = "string \<rightharpoonup> (string \<rightharpoonup> pyval)"

datatype level = LInfo | LWarning | LError

datatype event =
    Log level string
  | Sent http_request
  | Slept real
  | WroteRecord string pydict real
  | WroteState state

text \<open>
  \<open>clock\<close> is the wall clock at the last reading and \<open>lapse\<close> the time that passes
  before each later reading; \<open>send\<close> is what the transport answers to the next requests,
  \<open>jitter\<close> the next values of \<^verbatim>\<open>random.random()\<close>; \<open>trace\<close> collects what the run
  logs, sends, sleeps and writes. \<open>user_agent\<close> is \<^verbatim>\<open>CONFIG.get('user_agent')\<close>,
  \<open>DEFAULT_START_DATE\<close> the module global and \<open>today\<close> the value of
  \<^verbatim>\<open>datetime.date.today()\<close>.
\<close>

record world =
  clock :: real
  lapse :: "nat \<Rightarrow> real"
  send :: "nat \<Rightarrow> http_request \<Rightarrow> reply"
  jitter :: "nat \<Rightarrow> real"
  trace :: "event list"
  user_agent :: "string option"
  DEFAULT_START_DATE :: string
  today :: date

definition emit :: "event \<Rightarrow> world \<Rightarrow> world" where
  "emit e w = w\<lparr>trace := trace w @ [e]\<rparr>"

text \<open>\<^verbatim>\<open>utils.now().timestamp()\<close> and \<^verbatim>\<open>time.time()\<close>: a reading of the clock.\<close>

definition now :: "world \<Rightarrow> real \<times> world" where
  "now w =
     (let t = clock w + lapse w 0
      in (t, w\<lparr>clock := t, lapse := (\<lambda>n. lapse w (Suc n))\<rparr>))"

text \<open>\<^verbatim>\<open>time.sleep(d)\<close> raises ValueError on a negative length.\<close>

definition time_sleep :: "real \<Rightarrow> world \<Rightarrow> error option \<times> world" where
  "time_sleep d w =
     (if d < 0 then (Some ValueError, w)
      else (None, w\<lparr>clock := clock w + d, trace := trace w @ [Slept d]\<rparr>))"

definition random_random :: "world \<Rightarrow> real \<times> world" where
  "random_random w = (jitter w 0, w\<lparr>jitter := (\<lambda>n. jitter w (Suc n))\<rparr>)"

definition session_send :: "http_request \<Rightarrow> world \<Rightarrow> reply \<times> world" where
  "session_send req w =
     (send w 0 req, w\<lparr>send := (\<lambda>n. send w (Suc n)), trace := trace w @ [Sent req]\<rparr>)"

subsection \<open>Constants\<close>

definition BASE_URL :: string where
  "BASE_URL = ''https://api.outbrain.com/amplify/v0.1''"

definition TAP_CAMPAIGN_COUNT_ERROR_CEILING :: int where
  "TAP_CAMPAIGN_COUNT_ERROR_CEILING = 660"

definition MARKETERS_CAMPAIGNS_MAX_LIMIT :: int where
  "MARKETERS_CAMPAIGNS_MAX_LIMIT = 50"

definition REPORTS_MARKETERS_PERIODIC_MAX_LIMIT :: int where
  "REPORTS_MARKETERS_PERIODIC_MAX_LIMIT = 500"

subsection \<open>The request gateway\<close>

text \<open>The body of \<^verbatim>\<open>request\<close>: one attempt.\<close>

definition build_request :: "string \<Rightarrow> string \<Rightarrow> pydict \<Rightarrow> world \<Rightarrow> http_request" where
  "build_request u access_token ps w =
     \<lparr>url = u,
      headers = (''OB-TOKEN-V1'', access_token) #
        (case user_agent w of None \<Rightarrow> [] | Some ua \<Rightarrow> [(''User-Agent'', ua)]),
      params = ps\<rparr>"

definition raise_for_status :: "response \<Rightarrow> error option" where
  "raise_for_status resp =
     (if 400 \<le> status_code resp \<and> status_code resp < 500 then Some (HTTPError (status_code resp))
      else if 500 \<le> status_code resp \<and> status_code resp < 600
      then Some (HTTPError (status_code resp))
      else None)"

definition request_once ::
  "string \<Rightarrow> string \<Rightarrow> pydict \<Rightarrow> world \<Rightarrow> (error + response) \<times> world" where
  "request_once u access_token ps w =
     (let w1 = emit (Log LInfo ''Making request: GET {} {}'') w;
          req = build_request u access_token ps w1;
          w2 = emit (Log LInfo ''GET {}'') w1;
          (rep, w3) = session_send req w2
      in case rep of
           NoReply \<Rightarrow> (Inl ConnectionError, w3)
         | Reply code body \<Rightarrow>
             (let resp = \<lparr>status_code = code, content = body\<rparr>
              in if status_code resp \<ge> 400 then
                   (let w4 = emit (Log LError ''GET {} [{} - {}]'') w3
                    in case raise_for_status resp of
                         Some e \<Rightarrow> (Inl e, w4)
                       | None \<Rightarrow> (Inr resp, w4))
                 else (Inr resp, w3)))"

text \<open>
  The decorator
  \<^verbatim>\<open>@backoff.on_exception(backoff.constant, RequestException, jitter=backoff.random_jitter,
  max_tries=5, giveup=singer.requests.giveup_on_http_4xx_except_429, interval=30)\<close>.
  The libraries are not part of the repository; their behaviour is written out here.
  \<^verbatim>\<open>giveup_on_http_4xx_except_429\<close> gives up on an error that carries a response whose
  status is neither 429 nor 500 and above. \<^verbatim>\<open>on_exception\<close> counts the tries from
  zero, calls the target, and on a \<^verbatim>\<open>RequestException\<close> raises it again when
  \<open>giveup\<close> holds or the count has reached \<open>max_tries\<close>, and otherwise sleeps
  \<open>interval + random.random()\<close> and tries again; any other exception passes through.
\<close>

definition max_tries :: nat where
  "max_tries = 5"

definition interval :: real where
  "interval = 30"

definition is_request_exception :: "error \<Rightarrow> bool" where
  "is_request_exception e = (case e of ConnectionError \<Rightarrow> True | HTTPError _ \<Rightarrow> True | _ \<Rightarrow> False)"

definition giveup_on_http_4xx_except_429 :: "error \<Rightarrow> bool" where
  "giveup_on_http_4xx_except_429 e =
     (case e of HTTPError code \<Rightarrow> \<not> (code = 429 \<or> code \<ge> 500) | _ \<Rightarrow> False)"

function request_retry ::
  "nat \<Rightarrow> string \<Rightarrow> string \<Rightarrow> pydict \<Rightarrow> world \<Rightarrow> (error + response) \<times> world" where
  "request_retry tries u access_token ps w =
     (let tries' = tries + 1;
          (r, w1) = request_once u access_token ps w
      in case r of
           Inr resp \<Rightarrow> (Inr resp, w1)
         | Inl e \<Rightarrow>
             if \<not> is_request_exception e then (Inl e, w1)
             else if giveup_on_http_4xx_except_429 e \<or> tries' \<ge> max_tries then (Inl e, w1)
             else
               (let (j, w2) = random_random w1;
                    seconds = interval + j
                in case time_sleep seconds w2 of
                     (Some err, w3) \<Rightarrow> (Inl err, w3)
                   | (None, w3) \<Rightarrow> request_retry tries' u access_token ps w3))"
  by pat_completeness auto
termination
  by (relation "measure (\<lambda>(tries, u, access_token, ps, w). max_tries - tries)") auto

definition request :: "string \<Rightarrow> string \<Rightarrow> pydict \<Rightarrow> world \<Rightarrow> (error + response) \<times> world" where
  "request u access_token ps w = request_retry 0 u access_token ps w"

text \<open>\<^verbatim>\<open>response.json()\<close>.\<close>

definition json_of :: "response \<Rightarrow> error + json" where
  "json_of resp = (case content resp of None \<Rightarrow> Inl JSONDecodeError | Some j \<Rightarrow> Inr j)"

subsection \<open>Performance sync\<close>

text \<open>
  \<^verbatim>\<open>parse_performance\<close>: the values of the dictionary are evaluated in the order they
  are written, and the first conversion that raises ends the call.
\<close>

definition parse_performance :: "result \<Rightarrow> pydict \<Rightarrow> error + pydict" where
  "parse_performance result extra_fields =
     (let ms = metrics result;
          md = metadata result
      in then_do (py_int (get_default ms ''impressions'' (NInt 0))) (\<lambda>impressions.
         then_do (py_int (get_default ms ''clicks'' (NInt 0))) (\<lambda>clicks.
         then_do (py_float (get_default ms ''ctr'' (NFloat (Finite 0)))) (\<lambda>ctr.
         then_do (py_float (get_default ms ''spend'' (NFloat (Finite 0)))) (\<lambda>spend.
         then_do (py_float (get_default ms ''ecpc'' (NFloat (Finite 0)))) (\<lambda>ecpc.
         then_do (py_int (get_default ms ''conversions'' (NInt 0))) (\<lambda>conversions.
         then_do (py_float (get_default ms ''conversionRate'' (NFloat (Finite 0))))
           (\<lambda>conversionRate.
         then_do (py_float (get_default ms ''cpa'' (NFloat (Finite 0)))) (\<lambda>cpa.
           Inr ([''fromDate'' \<mapsto> dict_get md ''fromDate'',
                 ''impressions'' \<mapsto> PyInt impressions,
                 ''clicks'' \<mapsto> PyInt clicks,
                 ''ctr'' \<mapsto> PyFloat ctr,
                 ''spend'' \<mapsto> PyFloat spend,
                 ''ecpc'' \<mapsto> PyFloat ecpc,
                 ''conversions'' \<mapsto> PyInt conversions,
                 ''conversionRate'' \<mapsto> PyFloat conversionRate,
                 ''cpa'' \<mapsto> PyFloat cpa] ++ extra_fields))))))))))"

text \<open>
  The list comprehension of lines 216 to 218: every row is parsed before any record
  is written, and the exception of the first row that fails ends it.
\<close>

fun performance_of :: "result list \<Rightarrow> pydict \<Rightarrow> error + pydict list" where
  "performance_of [] extra_persist_fields = Inr []"
| "performance_of (result # rest) extra_persist_fields =
     then_do (parse_performance result extra_persist_fields) (\<lambda>record.
     then_do (performance_of rest extra_persist_fields) (\<lambda>records. Inr (record # records)))"

text \<open>
  Lines 169 to 178 of \<^verbatim>\<open>sync_performance\<close>: the start of the sync is the stored
  cursor (or \<^verbatim>\<open>DEFAULT_START_DATE\<close>) minus two days, and the windows run from there
  to today.
\<close>

definition sync_from_date :: "state \<Rightarrow> string \<Rightarrow> string \<Rightarrow> world \<Rightarrow> error + date" where
  "sync_from_date st table_name state_sub_id w =
     (case get_default (get_default st table_name Map.empty) state_sub_id
             (PyStr (DEFAULT_START_DATE w)) of
        PyStr s \<Rightarrow>
          (case strptime_ymd s of
             Inl e \<Rightarrow> Inl e
           | Inr d \<Rightarrow> date_add_days d (- 2))
      | _ \<Rightarrow> Inl TypeError)"

definition sync_date_ranges ::
  "state \<Rightarrow> string \<Rightarrow> string \<Rightarrow> world \<Rightarrow> (error + date_range list) option" where
  "sync_date_ranges st table_name state_sub_id w =
     (case sync_from_date st table_name state_sub_id w of
        Inl e \<Rightarrow> Some (Inl e)
      | Inr from_d \<Rightarrow>
          get_date_ranges from_d (today w) REPORTS_MARKETERS_PERIODIC_MAX_LIMIT)"

text \<open>
  The body of the loop over the windows, in two parts. Lines 183 to 204: the report
  request of one window and the parsing of its body.
\<close>

definition report_request ::
  "string \<Rightarrow> string \<Rightarrow> string \<Rightarrow> pydict \<Rightarrow> pydict \<Rightarrow> date_range \<Rightarrow> world
     \<Rightarrow> (error + json) \<times> world" where
  "report_request access_token account_id table_name extra_params extra_persist_fields dr w =
     (let w1 = emit (Log LInfo ''Pulling {} for {} from {} to {}'') w;
          ps = [''from'' \<mapsto> PyDate (from_date dr),
                ''to'' \<mapsto> PyDate (to_date dr),
                ''breakdown'' \<mapsto> PyStr ''daily'',
                ''limit'' \<mapsto> PyInt REPORTS_MARKETERS_PERIODIC_MAX_LIMIT,
                ''sort'' \<mapsto> PyStr ''+fromDate'',
                ''includeArchivedCampaigns'' \<mapsto> PyBool True] ++ extra_params;
          (last_request_start, w2) = now w1;
          (r, w3) = request (BASE_URL @ ''/reports/marketers/'' @ account_id @ ''/periodic'')
                      access_token ps w2
      in case r of
           Inl e \<Rightarrow> (Inl e, w3)
         | Inr resp \<Rightarrow> (json_of resp, w3))"

text \<open>
  Lines 231 to 238, the pacing at the end of the loop body.
  \<^verbatim>\<open>last_request_start\<close> is never \<^verbatim>\<open>None\<close> there, so the test is the
  comparison alone; the code reads the clock once for the test and once more for the
  length of the sleep.
\<close>

definition pace :: "real \<Rightarrow> world \<Rightarrow> error option \<times> world" where
  "pace last_request_end w8 =
     (let (t1, w9) = now w8
      in if t1 - last_request_end < 30 then
           (let (t2, w10) = now w9;
                to_sleep = 30 - (t2 - last_request_end);
                w11 = emit (Log LInfo
                  ''Limiting to 2 requests per minute. Sleeping {} sec before making the next reporting request.'') w10
            in time_sleep to_sleep w11)
         else (None, w9))"

text \<open>
  Lines 205 to 230: what the loop body does with the parsed response, up to the
  pacing. It returns the exception that ended it, if any, and the state dictionary as
  it left it.
\<close>

definition process_report ::
  "state \<Rightarrow> string \<Rightarrow> string \<Rightarrow> pydict \<Rightarrow> json \<Rightarrow> world \<Rightarrow> error option \<times> state \<times> world" where
  "process_report st table_name state_sub_id extra_persist_fields response w3 =
     (case totalResults response of
        None \<Rightarrow> (Some TypeError, st, w3)
      | Some total_results \<Rightarrow>
       (let w4 = (if REPORTS_MARKETERS_PERIODIC_MAX_LIMIT < total_results
                  then emit (Log LWarning
                    ''More performance data (`{}`) than the tap can currently retrieve (`{}`)'') w3
                  else emit (Log LInfo
                    ''Syncing `{}` rows of performance data for campaign `{}`. Requested `{}`.'') w3);
            (last_request_end, w5) = now w4;
            w6 = emit (Log LInfo ''Done in {} sec'') w5
        in case results response of
             None \<Rightarrow> (Some TypeError, st, w6)
           | Some rs \<Rightarrow>
       (case performance_of rs extra_persist_fields of
          Inl e \<Rightarrow> (Some e, st, w6)
        | Inr performance \<Rightarrow>
       (let w7 = foldl (\<lambda>v record. emit (WroteRecord table_name record last_request_end) v)
                   w6 performance
        in case performance of
             [] \<Rightarrow> (Some IndexError, st, w7)
           | _ # _ \<Rightarrow>
       (let last_record = last performance;
            new_from_date = dict_get last_record ''fromDate''
        in case st table_name of
             None \<Rightarrow> (Some KeyError, st, w7)
           | Some sub \<Rightarrow>
       (let st' = st(table_name \<mapsto> sub(state_sub_id \<mapsto> new_from_date));
            w8 = emit (WroteState st') w7
        in case pace last_request_end w8 of
             (out, w12) \<Rightarrow> (out, st', w12)))))))"

definition sync_window ::
  "state \<Rightarrow> string \<Rightarrow> string \<Rightarrow> string \<Rightarrow> string \<Rightarrow> pydict \<Rightarrow> pydict \<Rightarrow> date_range
     \<Rightarrow> world \<Rightarrow> error option \<times> state \<times> world" where
  "sync_window st access_token account_id table_name state_sub_id extra_params
       extra_persist_fields dr w =
     (case report_request access_token account_id table_name extra_params
             extra_persist_fields dr w of
        (Inl e, w3) \<Rightarrow> (Some e, st, w3)
      | (Inr response, w3) \<Rightarrow>
          process_report st table_name state_sub_id extra_persist_fields response w3)"

fun sync_windows ::
  "state \<Rightarrow> string \<Rightarrow> string \<Rightarrow> string \<Rightarrow> string \<Rightarrow> pydict \<Rightarrow> pydict \<Rightarrow> date_range list
     \<Rightarrow> world \<Rightarrow> error option \<times> state \<times> world" where
  "sync_windows st access_token account_id table_name state_sub_id extra_params
       extra_persist_fields [] w = (None, st, w)"
| "sync_windows st access_token account_id table_name state_sub_id extra_params
       extra_persist_fields (dr # drs) w =
     (case sync_window st access_token account_id table_name state_sub_id extra_params
             extra_persist_fields dr w of
        (Some e, st', w') \<Rightarrow> (Some e, st', w')
      | (None, st', w') \<Rightarrow>
          sync_windows st' access_token account_id table_name state_sub_id extra_params
            extra_persist_fields drs w')"

definition sync_performance ::
  "state \<Rightarrow> string \<Rightarrow> string \<Rightarrow> string \<Rightarrow> string \<Rightarrow> pydict \<Rightarrow> pydict
     \<Rightarrow> world \<Rightarrow> (error option \<times> state \<times> world) option" where
  "sync_performance st access_token account_id table_name state_sub_id extra_params
       extra_persist_fields w =
     (case sync_date_ranges st table_name state_sub_id w of
        None \<Rightarrow> None
      | Some (Inl e) \<Rightarrow> Some (Some e, st, w)
      | Some (Inr date_ranges) \<Rightarrow>
          Some (sync_windows st access_token account_id table_name state_sub_id extra_params
                  extra_persist_fields date_ranges w))"

definition sync_campaign_performance ::
  "state \<Rightarrow> string \<Rightarrow> string \<Rightarrow> string \<Rightarrow> world \<Rightarrow> (error option \<times> state \<times> world) option" where
  "sync_campaign_performance st access_token account_id campaign_id w =
     sync_performance st access_token account_id ''campaign_performance'' campaign_id
       [''campaignId'' \<mapsto> PyStr campaign_id] [''campaignId'' \<mapsto> PyStr campaign_id] w"

subsection \<open>The campaign paginator\<close>

definition get_campaigns_page ::
  "string \<Rightarrow> string \<Rightarrow> int \<Rightarrow> world \<Rightarrow> (error + json) \<times> world" where
  "get_campaigns_page account_id access_token offset w =
     (let (r, w1) = request (BASE_URL @ ''/marketers/'' @ account_id @ ''/campaigns'')
                      access_token
                      [''limit'' \<mapsto> PyInt MARKETERS_CAMPAIGNS_MAX_LIMIT,
                       ''offset'' \<mapsto> PyInt offset] w
      in case r of
           Inl e \<Rightarrow> (Inl e, w1)
         | Inr resp \<Rightarrow> (json_of resp, w1))"

text \<open>
  \<^verbatim>\<open>get_campaign_pages\<close> is a generator: \<open>consume\<close> is the body of the
  \<^verbatim>\<open>for\<close> loop that drives it, run at each \<^verbatim>\<open>yield\<close>. The result is the pages
  yielded, the exception that ended the iteration, if any, and the world.
\<close>

function get_campaign_pages_loop ::
  "(json \<Rightarrow> world \<Rightarrow> error option \<times> world) \<Rightarrow> string \<Rightarrow> string \<Rightarrow> int \<Rightarrow> world
     \<Rightarrow> json list \<times> error option \<times> world" where
  "get_campaign_pages_loop consume account_id access_token offset w =
     (let w1 = emit (Log LInfo ''Retrieving campaigns from offset `{}`'') w;
          (r, w2) = get_campaigns_page account_id access_token offset w1
      in case r of
           Inl e \<Rightarrow> ([], Some e, w2)
         | Inr campaign_page \<Rightarrow>
       (case totalCount campaign_page of
           None \<Rightarrow> ([], Some TypeError, w2)
         | Some total_count \<Rightarrow>
             if TAP_CAMPAIGN_COUNT_ERROR_CEILING < total_count then
               ([], Some (TooManyCampaigns total_count),
                emit (Log LError
                  ''Tap found `{}` campaigns which is more than can be retrieved in the alloted time (`{}`).'') w2)
             else
               (let w3 = emit (Log LInfo ''Retrieved offset `{}` campaigns out of `{}`'') w2
                in case consume campaign_page w3 of
                     (Some e, w4) \<Rightarrow> ([campaign_page], Some e, w4)
                   | (None, w4) \<Rightarrow>
                       if offset + MARKETERS_CAMPAIGNS_MAX_LIMIT < total_count then
                         (let (pages, out, w5) =
                                get_campaign_pages_loop consume account_id access_token
                                  (offset + MARKETERS_CAMPAIGNS_MAX_LIMIT) w4
                          in (campaign_page # pages, out, w5))
                       else
                         ([campaign_page], None,
                          emit (Log LInfo ''Finished retrieving `{}` campaigns'') w4))))"
  by pat_completeness auto
termination
  by (relation "measure (\<lambda>(consume, account_id, access_token, offset, w).
        nat (TAP_CAMPAIGN_COUNT_ERROR_CEILING - offset))")
     (auto simp: TAP_CAMPAIGN_COUNT_ERROR_CEILING_def MARKETERS_CAMPAIGNS_MAX_LIMIT_def)

definition get_campaign_pages ::
  "(json \<Rightarrow> world \<Rightarrow> error option \<times> world) \<Rightarrow> string \<Rightarrow> string \<Rightarrow> world
     \<Rightarrow> json list \<times> error option \<times> world" where
  "get_campaign_pages consume account_id access_token w =
     get_campaign_pages_loop consume account_id access_token 0 w"

subsection \<open>Observations on a run\<close>

text \<open>What a trace holds: the requests sent, the sleeps, the records and states written.\<close>

fun sent_count :: "event list \<Rightarrow> nat" where
  "sent_count [] = 0"
| "sent_count (Sent req # es) = Suc (sent_count es)"
| "sent_count (_ # es) = sent_count es"

fun sleeps :: "event list \<Rightarrow> real list" where
  "sleeps [] = []"
| "sleeps (Slept d # es) = d # sleeps es"
| "sleeps (_ # es) = sleeps es"

fun records :: "event list \<Rightarrow> pydict list" where
  "records [] = []"
| "records (WroteRecord table_name record t # es) = record # records es"
| "records (_ # es) = records es"

fun state_writes :: "event list \<Rightarrow> state list" where
  "state_writes [] = []"
| "state_writes (WroteState st # es) = st # state_writes es"
| "state_writes (_ # es) = state_writes es"

fun warnings :: "event list \<Rightarrow> nat" where
  "warnings [] = 0"
| "warnings (Log LWarning msg # es) = Suc (warnings es)"
| "warnings (_ # es) = warnings es"

text \<open>The stored cursor \<^verbatim>\<open>state[table_name][state_sub_id]\<close>, if there is one.\<close>

definition cursor :: "state \<Rightarrow> string \<Rightarrow> string \<Rightarrow> pyval option" where
  "cursor st table_name state_sub_id =
     (case st table_name of None \<Rightarrow> None | Some sub \<Rightarrow> sub state_sub_id)"

text \<open>The exception, the state and the trace a run of \<^verbatim>\<open>sync_performance\<close> ends with.\<close>

definition outcome :: "(error option \<times> state \<times> world) option \<Rightarrow> error option option" where
  "outcome r = map_option fst r"

definition final_cursor ::
  "(error option \<times> state \<times> world) option \<Rightarrow> string \<Rightarrow> string \<Rightarrow> pyval option" where
  "final_cursor r table_name state_sub_id =
     (case r of None \<Rightarrow> None | Some (out, st, w) \<Rightarrow> cursor st table_name state_sub_id)"

definition final_trace :: "(error option \<times> state \<times> world) option \<Rightarrow> event list" where
  "final_trace r = (case r of None \<Rightarrow> [] | Some (out, st, w) \<Rightarrow> trace w)"

text \<open>The classes of replies of the request gateway.\<close>

definition transient :: "reply \<Rightarrow> bool" where
  "transient rep =
     (case rep of NoReply \<Rightarrow> True | Reply code body \<Rightarrow> code = 429 \<or> (500 \<le> code \<and> code < 600))"

definition reply_error :: "reply \<Rightarrow> error" where
  "reply_error rep = (case rep of NoReply \<Rightarrow> ConnectionError | Reply code body \<Rightarrow> HTTPError code)"

subsection \<open>Synthetic servers and clocks\<close>

text \<open>
  A listing of \<open>items\<close>: every request is answered with status 200 and the page of the
  items at the request's \<^verbatim>\<open>offset\<close>, with \<^verbatim>\<open>totalCount\<close> the number of items.
\<close>

definition offset_of :: "http_request \<Rightarrow> int" where
  "offset_of req = (case params req ''offset'' of Some (PyInt off) \<Rightarrow> off | _ \<Rightarrow> 0)"

definition listing_page :: "pydict list \<Rightarrow> int \<Rightarrow> json" where
  "listing_page items off =
     \<lparr>totalCount = Some (int (length items)),
      campaigns = Some (take (nat MARKETERS_CAMPAIGNS_MAX_LIMIT) (drop (nat off) items)),
      totalResults = None,
      results = None\<rparr>"

definition listing_send :: "pydict list \<Rightarrow> nat \<Rightarrow> http_request \<Rightarrow> reply" where
  "listing_send items k req = Reply 200 (Some (listing_page items (offset_of req)))"

definition page_items :: "json \<Rightarrow> pydict list" where
  "page_items page = (case campaigns page of None \<Rightarrow> [] | Some cs \<Rightarrow> cs)"

definition no_consume :: "json \<Rightarrow> world \<Rightarrow> error option \<times> world" where
  "no_consume page w = (None, w)"

text \<open>A listing of \<open>n\<close> campaigns, told apart by their ids.\<close>

definition campaigns_of :: "nat \<Rightarrow> pydict list" where
  "campaigns_of n = map (\<lambda>k. [''id'' \<mapsto> PyInt (int k)]) [0..<n]"

text \<open>
  A listing that grows while it is read: the first request is answered with a page that
  reports 100 campaigns, the later ones with a page that reports 700.
\<close>

definition count_page :: "int \<Rightarrow> json" where
  "count_page n = \<lparr>totalCount = Some n, campaigns = Some [], totalResults = None, results = None\<rparr>"

definition growing_send :: "nat \<Rightarrow> http_request \<Rightarrow> reply" where
  "growing_send k req = Reply 200 (Some (count_page (if k = 0 then 100 else 700)))"

text \<open>A report server: every request is answered with status 200 and the same body.\<close>

definition report_row :: "string \<Rightarrow> result" where
  "report_row d = \<lparr>metrics = Map.empty, metadata = [''fromDate'' \<mapsto> PyStr d]\<rparr>"

text \<open>The record of such a row: every metric has its default.\<close>

definition row_record :: "string \<Rightarrow> pydict \<Rightarrow> pydict" where
  "row_record d extra_fields =
     [''fromDate'' \<mapsto> PyStr d,
      ''impressions'' \<mapsto> PyInt 0,
      ''clicks'' \<mapsto> PyInt 0,
      ''ctr'' \<mapsto> PyFloat (Finite 0),
      ''spend'' \<mapsto> PyFloat (Finite 0),
      ''ecpc'' \<mapsto> PyFloat (Finite 0),
      ''conversions'' \<mapsto> PyInt 0,
      ''conversionRate'' \<mapsto> PyFloat (Finite 0),
      ''cpa'' \<mapsto> PyFloat (Finite 0)] ++ extra_fields"


definition report_body :: "int option \<Rightarrow> result list option \<Rightarrow> json" where
  "report_body n rows =
     \<lparr>totalCount = None, campaigns = None, totalResults = n, results = rows\<rparr>"

definition report_send :: "json \<Rightarrow> nat \<Rightarrow> http_request \<Rightarrow> reply" where
  "report_send body k req = Reply 200 (Some body)"

text \<open>
  A world on 2021-01-10 with the clock at zero, the given transport and the given
  lapses of time between the readings of the clock.
\<close>

definition world_of :: "(nat \<Rightarrow> http_request \<Rightarrow> reply) \<Rightarrow> (nat \<Rightarrow> real) \<Rightarrow> world" where
  "world_of srv laps =
     \<lparr>clock = 0, lapse = laps, send = srv, jitter = (\<lambda>k. 1 / 2), trace = [],
      user_agent = None, DEFAULT_START_DATE = ''2016-08-01'', today = ymd2ord 2021 1 10\<rparr>"

definition state_of :: "string \<Rightarrow> string \<Rightarrow> state" where
  "state_of campaign_id d = [''campaign_performance'' \<mapsto> [campaign_id \<mapsto> PyStr d]]"

text \<open>
  The clock of a run in which one second passes between the two readings of the
  pacing code, the first of them 29.5 seconds after the end of the request.
\<close>

definition slow_clock :: "nat \<Rightarrow> real" where
  "slow_clock k = (if k = 2 then 59 / 2 else if k = 3 then 1 else 0)"

text \<open>The clock of a run in which 40 seconds pass before every reading.\<close>

definition steady_clock :: "nat \<Rightarrow> real" where
  "steady_clock k = 40"

text \<open>
  A transport that refuses every request with status 404, and one that fails twice
  without a response, then answers 429 and from then on 503.
\<close>

definition forbidden_send :: "nat \<Rightarrow> http_request \<Rightarrow> reply" where
  "forbidden_send k req = Reply 404 None"

definition flaky_send :: "nat \<Rightarrow> http_request \<Rightarrow> reply" where
  "flaky_send k req = (if k < 2 then NoReply else if k = 2 then Reply 429 None else Reply 503 None)"

text \<open>
  A transport that answers 503 once and then 404, and one that answers 500 once and
  then 200.
\<close>

definition rejecting_send :: "nat \<Rightarrow> http_request \<Rightarrow> reply" where
  "rejecting_send k req = (if k = 0 then Reply 503 None else Reply 404 None)"

definition recovering_send :: "nat \<Rightarrow> http_request \<Rightarrow> reply" where
  "recovering_send k req = (if k = 0 then Reply 500 None else Reply 200 None)"

text \<open>The world after \<^verbatim>\<open>random.random()\<close> and a sleep of \<open>d\<close>.\<close>

definition slept :: "real \<Rightarrow> world \<Rightarrow> world" where
  "slept d w =
     w\<lparr>jitter := (\<lambda>n. jitter w (Suc n)), clock := clock w + d, trace := trace w @ [Slept d]\<rparr>"

section \<open>Properties\<close>

text \<open>The defining equations of the loops are applied by hand, one turn at a time.\<close>

declare request_retry.simps [simp del]

declare get_campaign_pages_loop.simps [simp del]


subsection \<open>Evaluating dates\<close>

lemmas date_defs = ymd2ord_def days_before_year_def days_before_month_def is_leap_def

lemmas strptime_defs = strptime_ymd_def match_ymd_def match_m_def match_d_def two_digits_def
  one_digit_def space_digit_def in_range_def is_digit_def digit_val_def mk_date_def
  days_in_month_def

lemma ymd2ord_values:
  "ymd2ord 2020 12 30 = 737789" "ymd2ord 2021 1 1 = 737791" "ymd2ord 2021 1 3 = 737793"
  "ymd2ord 2021 1 5 = 737795" "ymd2ord 2021 1 10 = 737800" "ymd2ord 2021 1 11 = 737801"
  "ymd2ord 2021 1 20 = 737810"
  by (simp_all add: date_defs)

lemma strptime_values:
  "strptime_ymd ''2021-01-01'' = Inr (ymd2ord 2021 1 1)"
  "strptime_ymd ''2021-01-03'' = Inr (ymd2ord 2021 1 3)"
  "strptime_ymd ''2021-01-05'' = Inr (ymd2ord 2021 1 5)"
  "strptime_ymd ''2021-01-20'' = Inr (ymd2ord 2021 1 20)"
  by (simp_all add: strptime_defs is_leap_def)

subsection \<open>The date-window planner\<close>

text \<open>
  C9: when \<open>start_date > end_date\<close>, \<^verbatim>\<open>get_date_ranges\<close> returns the empty sequence,
  whatever the window size, and raises nothing: the result is \<open>Some\<close> (it returns) of
  \<open>Inr\<close> (no exception) of the empty list.
\<close>

theorem get_date_ranges_start_after_end:
  "start > end \<Longrightarrow> get_date_ranges start end interval_in_days = Some (Inr [])"
  by (simp add: get_date_ranges_def)

theorem get_date_ranges_start_after_end_witness:
  "ymd2ord 2021 1 10 > ymd2ord 2021 1 1
   \<and> get_date_ranges (ymd2ord 2021 1 10) (ymd2ord 2021 1 1) 500 = Some (Inr [])"
  using get_date_ranges_start_after_end [of "ymd2ord 2021 1 1" "ymd2ord 2021 1 10" 500]
  by (simp add: ymd2ord_values)

text \<open>
  C1: the windows of \<^verbatim>\<open>get_date_ranges\<close> are claimed to tile \<open>[start_date, end_date]\<close>
  for every \<open>start_date \<le> end_date\<close> and window of at least one day. The loop runs
  while \<open>interval_start < end\<close>, so the day \<open>end_date\<close> is left out whenever the
  windows before it end exactly on the day before: with \<open>start_date = end_date\<close> no
  window is planned at all, and from 2021-01-01 to 2021-01-11 in windows of 10 days the
  only window ends on 2021-01-10.
\<close>

theorem get_date_ranges_misses_end_date:
  "get_date_ranges (ymd2ord 2021 1 10) (ymd2ord 2021 1 10) 500 = Some (Inr [])
   \<and> get_date_ranges (ymd2ord 2021 1 1) (ymd2ord 2021 1 11) 10
       = Some (Inr [\<lparr>from_date = ymd2ord 2021 1 1, to_date = ymd2ord 2021 1 10\<rparr>])
   \<and> ymd2ord 2021 1 10 \<noteq> ymd2ord 2021 1 11"
  by (simp add: get_date_ranges_def date_ranges_loop.simps date_add_days_def MAXORDINAL_def
        ymd2ord_values)

subsection \<open>The start of a sync\<close>

text \<open>
  C5: for an entity whose stored checkpoint is "2021-01-01", on 2021-01-10,
  \<^verbatim>\<open>sync_performance\<close> starts the sync two days before the checkpoint, on 2020-12-30,
  and with windows of 500 days plans exactly one window, from 2020-12-30 to 2021-01-10.
\<close>

theorem sync_plan_from_checkpoint:
  "sync_from_date (st(table_name \<mapsto> sub(state_sub_id \<mapsto> PyStr ''2021-01-01'')))
       table_name state_sub_id w
     = Inr (ymd2ord 2020 12 30)
   \<and> sync_date_ranges (st(table_name \<mapsto> sub(state_sub_id \<mapsto> PyStr ''2021-01-01'')))
       table_name state_sub_id (w\<lparr>today := ymd2ord 2021 1 10\<rparr>)
     = Some (Inr [\<lparr>from_date = ymd2ord 2020 12 30, to_date = ymd2ord 2021 1 10\<rparr>])"
  by (simp add: sync_date_ranges_def sync_from_date_def get_default_def strptime_values
        ymd2ord_values date_add_days_def MAXORDINAL_def get_date_ranges_def
        date_ranges_loop.simps REPORTS_MARKETERS_PERIODIC_MAX_LIMIT_def)

subsection \<open>Traces\<close>

lemma sent_count_append: "sent_count (xs @ ys) = sent_count xs + sent_count ys"
  by (induction xs rule: sent_count.induct) simp_all

lemma sleeps_append: "sleeps (xs @ ys) = sleeps xs @ sleeps ys"
  by (induction xs rule: sleeps.induct) simp_all

lemma records_append: "records (xs @ ys) = records xs @ records ys"
  by (induction xs rule: records.induct) simp_all

lemma state_writes_append: "state_writes (xs @ ys) = state_writes xs @ state_writes ys"
  by (induction xs rule: state_writes.induct) simp_all

lemma warnings_append: "warnings (xs @ ys) = warnings xs + warnings ys"
  by (induction xs rule: warnings.induct) simp_all

lemmas obs_append = sent_count_append sleeps_append records_append state_writes_append
  warnings_append

subsection \<open>The request gateway\<close>

lemma build_request_emit: "build_request u tok ps (emit e w) = build_request u tok ps w"
  by (simp add: build_request_def emit_def)

lemma request_once_fst:
  "fst (request_once u tok ps w) =
     (case send w 0 (build_request u tok ps w) of
        NoReply \<Rightarrow> Inl ConnectionError
      | Reply code body \<Rightarrow>
          if 400 \<le> code \<and> code < 600 then Inl (HTTPError code)
          else Inr \<lparr>status_code = code, content = body\<rparr>)"
  by (auto simp: request_once_def Let_def session_send_def emit_def build_request_def
        raise_for_status_def split: reply.splits)

lemma request_once_world:
  assumes "request_once u tok ps w = (r, w')"
  shows "send w' = (\<lambda>n. send w (Suc n))" "jitter w' = jitter w" "user_agent w' = user_agent w"
    "clock w' = clock w" "lapse w' = lapse w" "today w' = today w"
    "sent_count (trace w') = Suc (sent_count (trace w))"
    "sleeps (trace w') = sleeps (trace w)"
    "records (trace w') = records (trace w)"
    "state_writes (trace w') = state_writes (trace w)"
    "warnings (trace w') = warnings (trace w)"
  using assms
  by (auto simp: request_once_def Let_def session_send_def emit_def obs_append
        split: reply.splits if_splits option.splits)


lemma retry_stop:
  assumes "request_once u tok ps w = (r1, w1)"
    and "\<And>e. r1 = Inl e \<Longrightarrow> giveup_on_http_4xx_except_429 e \<or> max_tries \<le> Suc tries"
  shows "request_retry tries u tok ps w = (r1, w1)"
  using assms by (subst request_retry.simps) (auto simp: Let_def split: sum.splits)

lemma retry_step:
  assumes "request_once u tok ps w = (Inl e, w1)"
    and "is_request_exception e" "\<not> giveup_on_http_4xx_except_429 e" "Suc tries < max_tries"
    and "0 \<le> interval + jitter w1 0"
  shows "request_retry tries u tok ps w =
           request_retry (Suc tries) u tok ps (slept (interval + jitter w1 0) w1)"
  using assms
  by (subst request_retry.simps)
     (simp add: Let_def random_random_def time_sleep_def slept_def)

lemma request_once_error:
  assumes "request_once u tok ps w = (Inl e, w1)"
  shows "e = reply_error (send w 0 (build_request u tok ps w))" "is_request_exception e"
  using request_once_fst[of u tok ps w] assms
  by (auto simp: reply_error_def is_request_exception_def split: reply.splits if_splits)

lemma build_request_cong: "user_agent w' = user_agent w \<Longrightarrow> build_request u tok ps w' = build_request u tok ps w"
  by (simp add: build_request_def)

lemma retry_all_transient:
  assumes "Suc tries + d = max_tries"
    and "\<forall>k\<le>d. transient (send w k (build_request u tok ps w))"
    and "\<forall>k<d. 0 \<le> jitter w k"
  shows "\<exists>w'. request_retry tries u tok ps w =
                 (Inl (reply_error (send w d (build_request u tok ps w))), w')
          \<and> sent_count (trace w') = sent_count (trace w) + Suc d
          \<and> sleeps (trace w') = sleeps (trace w) @ map (\<lambda>k. interval + jitter w k) [0..<d]"
  using assms
proof (induction d arbitrary: tries w)
  case 0
  obtain r1 w1 where once: "request_once u tok ps w = (r1, w1)" by fastforce
  from 0 have tr: "transient (send w 0 (build_request u tok ps w))" by simp
  then have r1: "r1 = Inl (reply_error (send w 0 (build_request u tok ps w)))"
    using request_once_fst[of u tok ps w] once
    by (auto simp: transient_def reply_error_def split: reply.splits)
  have "request_retry tries u tok ps w = (r1, w1)"
    using once 0 by (intro retry_stop) auto
  then show ?case using r1 request_once_world[OF once] by simp
next
  case (Suc d)
  let ?req = "build_request u tok ps w"
  obtain r1 w1 where once: "request_once u tok ps w = (r1, w1)" by fastforce
  note fr = request_once_world[OF once]
  from Suc.prems have tr: "transient (send w 0 ?req)" by simp
  then have r1: "r1 = Inl (reply_error (send w 0 ?req))"
    using request_once_fst[of u tok ps w] once
    by (auto simp: transient_def reply_error_def split: reply.splits)
  have ng: "\<not> giveup_on_http_4xx_except_429 (reply_error (send w 0 ?req))"
    using tr by (auto simp: transient_def reply_error_def giveup_on_http_4xx_except_429_def
        split: reply.splits)
  have j0: "0 \<le> interval + jitter w1 0" using Suc.prems fr by (simp add: interval_def)
  let ?w2 = "slept (interval + jitter w1 0) w1"
  have once': "request_once u tok ps w = (Inl (reply_error (send w 0 ?req)), w1)"
    using once r1 by simp
  have lt: "Suc tries < max_tries" using Suc.prems(1) by simp
  have step: "request_retry tries u tok ps w = request_retry (Suc tries) u tok ps ?w2"
    by (rule retry_step[OF once' request_once_error(2)[OF once'] ng lt j0])
  have req2: "build_request u tok ps ?w2 = ?req"
    by (rule build_request_cong) (simp add: slept_def fr)
  have send2: "send ?w2 = (\<lambda>n. send w (Suc n))" by (simp add: slept_def fr)
  have jit2: "jitter ?w2 = (\<lambda>n. jitter w (Suc n))" by (simp add: slept_def fr)
  have "\<exists>w'. request_retry (Suc tries) u tok ps ?w2 =
                 (Inl (reply_error (send ?w2 d (build_request u tok ps ?w2))), w')
          \<and> sent_count (trace w') = sent_count (trace ?w2) + Suc d
          \<and> sleeps (trace w') = sleeps (trace ?w2) @ map (\<lambda>k. interval + jitter ?w2 k) [0..<d]"
    using Suc.prems by (intro Suc.IH) (auto simp: req2 send2 jit2)
  then obtain w' where w': "request_retry (Suc tries) u tok ps ?w2 =
                 (Inl (reply_error (send w (Suc d) ?req)), w')"
     "sent_count (trace w') = sent_count (trace ?w2) + Suc d"
     "sleeps (trace w') = sleeps (trace ?w2) @ map (\<lambda>k. interval + jitter w (Suc k)) [0..<d]"
    by (auto simp: req2 send2 jit2)
  have tr2: "sent_count (trace ?w2) = Suc (sent_count (trace w))"
        "sleeps (trace ?w2) = sleeps (trace w) @ [interval + jitter w 0]"
    by (simp_all add: slept_def obs_append fr)
  show ?case
    using step w' tr2 by (simp add: map_upt_Suc del: upt_Suc)
qed


lemma retry_negative:
  assumes "request_once u tok ps w = (Inl e, w1)"
    and "\<not> giveup_on_http_4xx_except_429 e" "Suc tries < max_tries"
    and "interval + jitter w1 0 < 0"
  shows "request_retry tries u tok ps w =
           (Inl ValueError, w1\<lparr>jitter := (\<lambda>n. jitter w1 (Suc n))\<rparr>)"
  using assms request_once_error(2)[OF assms(1)]
  by (subst request_retry.simps)
     (simp add: Let_def random_random_def time_sleep_def)

lemma retry_frame:
  assumes "request_retry tries u tok ps w = (r, w')"
  shows "user_agent w' = user_agent w \<and> today w' = today w \<and> lapse w' = lapse w
    \<and> clock w \<le> clock w'
    \<and> records (trace w') = records (trace w)
    \<and> state_writes (trace w') = state_writes (trace w)
    \<and> warnings (trace w') = warnings (trace w)
    \<and> sent_count (trace w) < sent_count (trace w')
    \<and> sent_count (trace w') \<le> sent_count (trace w) + max 1 (max_tries - tries)"
  using assms
proof (induction d \<equiv> "max_tries - Suc tries" arbitrary: tries w)
  case 0
  obtain r1 w1 where once: "request_once u tok ps w = (r1, w1)" by fastforce
  have "request_retry tries u tok ps w = (r1, w1)"
    using once 0 by (intro retry_stop) auto
  then show ?case using request_once_world[OF once] 0 by auto
next
  case (Suc d)
  obtain r1 w1 where once: "request_once u tok ps w = (r1, w1)" by fastforce
  note fr = request_once_world[OF once]
  have lt: "Suc tries < max_tries" using Suc.hyps(2) by simp
  show ?case
  proof (cases "\<exists>e. r1 = Inl e \<and> \<not> giveup_on_http_4xx_except_429 e")
    case False
    then have "request_retry tries u tok ps w = (r1, w1)"
      using once by (intro retry_stop) auto
    then show ?thesis using fr Suc.prems by auto
  next
    case True
    then obtain e where e: "r1 = Inl e" "\<not> giveup_on_http_4xx_except_429 e" by blast
    have once': "request_once u tok ps w = (Inl e, w1)" using once e by simp
    show ?thesis
    proof (cases "interval + jitter w1 0 < 0")
      case True
      from retry_negative[OF once' e(2) lt True] Suc.prems fr show ?thesis by auto
    next
      case False
      let ?w2 = "slept (interval + jitter w1 0) w1"
      have "request_retry tries u tok ps w = request_retry (Suc tries) u tok ps ?w2"
        using False by (intro retry_step[OF once' request_once_error(2)[OF once'] e(2) lt]) simp
      then have r2: "request_retry (Suc tries) u tok ps ?w2 = (r, w')" using Suc.prems by simp
      have d: "d = max_tries - Suc (Suc tries)" using Suc.hyps(2) by simp
      note ih = Suc.hyps(1)[OF d r2]
      have w2: "user_agent ?w2 = user_agent w" "today ?w2 = today w" "lapse ?w2 = lapse w"
        "clock w \<le> clock ?w2" "records (trace ?w2) = records (trace w)"
        "state_writes (trace ?w2) = state_writes (trace w)"
        "warnings (trace ?w2) = warnings (trace w)"
        "sent_count (trace ?w2) = Suc (sent_count (trace w))"
        using False by (simp_all add: slept_def obs_append fr)
      have m: "max 1 (max_tries - Suc tries) = max_tries - Suc tries"
        "max 1 (max_tries - tries) = Suc (max_tries - Suc tries)"
        using lt by simp_all
      show ?thesis using ih w2 unfolding m by simp
    qed
  qed
qed

lemma request_client_error:
  assumes "send w 0 (build_request u tok ps w) = Reply code body"
    and "400 \<le> code" "code < 500" "code \<noteq> 429"
  shows "fst (request u tok ps w) = Inl (HTTPError code)"
    and "sent_count (trace (snd (request u tok ps w))) = sent_count (trace w) + 1"
    and "sleeps (trace (snd (request u tok ps w))) = sleeps (trace w)"
proof -
  obtain r1 w1 where once: "request_once u tok ps w = (r1, w1)" by fastforce
  have r1: "r1 = Inl (HTTPError code)"
    using request_once_fst[of u tok ps w] once assms by simp
  have "request u tok ps w = (r1, w1)"
    unfolding request_def using once r1 assms
    by (intro retry_stop) (auto simp: giveup_on_http_4xx_except_429_def)
  then show "fst (request u tok ps w) = Inl (HTTPError code)"
    and "sent_count (trace (snd (request u tok ps w))) = sent_count (trace w) + 1"
    and "sleeps (trace (snd (request u tok ps w))) = sleeps (trace w)"
    using r1 request_once_world[OF once] by simp_all
qed

lemma retry_prefix:
  assumes "tries + k < max_tries"
    and "\<forall>i<k. transient (send w i (build_request u tok ps w))"
    and "\<forall>i<k. 0 \<le> jitter w i"
  shows "\<exists>w2. request_retry tries u tok ps w = request_retry (tries + k) u tok ps w2
          \<and> send w2 = (\<lambda>n. send w (n + k)) \<and> user_agent w2 = user_agent w
          \<and> sent_count (trace w2) = sent_count (trace w) + k
          \<and> sleeps (trace w2) = sleeps (trace w) @ map (\<lambda>i. interval + jitter w i) [0..<k]"
  using assms
proof (induction k arbitrary: tries w)
  case 0
  show ?case by (intro exI[of _ w]) simp
next
  case (Suc k)
  let ?req = "build_request u tok ps w"
  obtain r1 w1 where once: "request_once u tok ps w = (r1, w1)" by fastforce
  note fr = request_once_world[OF once]
  from Suc.prems have tr: "transient (send w 0 ?req)" by simp
  then have r1: "r1 = Inl (reply_error (send w 0 ?req))"
    using request_once_fst[of u tok ps w] once
    by (auto simp: transient_def reply_error_def split: reply.splits)
  have ng: "\<not> giveup_on_http_4xx_except_429 (reply_error (send w 0 ?req))"
    using tr by (auto simp: transient_def reply_error_def giveup_on_http_4xx_except_429_def
        split: reply.splits)
  have j0: "0 \<le> interval + jitter w1 0" using Suc.prems fr by (simp add: interval_def)
  let ?w2 = "slept (interval + jitter w1 0) w1"
  have once': "request_once u tok ps w = (Inl (reply_error (send w 0 ?req)), w1)"
    using once r1 by simp
  have lt: "Suc tries < max_tries" using Suc.prems(1) by simp
  have step: "request_retry tries u tok ps w = request_retry (Suc tries) u tok ps ?w2"
    by (rule retry_step[OF once' request_once_error(2)[OF once'] ng lt j0])
  have req2: "build_request u tok ps ?w2 = ?req"
    by (rule build_request_cong) (simp add: slept_def fr)
  have send2: "send ?w2 = (\<lambda>n. send w (Suc n))" by (simp add: slept_def fr)
  have jit2: "jitter ?w2 = (\<lambda>n. jitter w (Suc n))" by (simp add: slept_def fr)
  have ua2: "user_agent ?w2 = user_agent w" by (simp add: slept_def fr)
  have "\<exists>w3. request_retry (Suc tries) u tok ps ?w2
                 = request_retry (Suc tries + k) u tok ps w3
          \<and> send w3 = (\<lambda>n. send ?w2 (n + k)) \<and> user_agent w3 = user_agent ?w2
          \<and> sent_count (trace w3) = sent_count (trace ?w2) + k
          \<and> sleeps (trace w3) = sleeps (trace ?w2) @ map (\<lambda>i. interval + jitter ?w2 i) [0..<k]"
    using Suc.prems by (intro Suc.IH) (auto simp: req2 send2 jit2)
  then obtain w3 where w3: "request_retry (Suc tries) u tok ps ?w2
                 = request_retry (Suc tries + k) u tok ps w3"
     "send w3 = (\<lambda>n. send w (Suc (n + k)))" "user_agent w3 = user_agent w"
     "sent_count (trace w3) = sent_count (trace ?w2) + k"
     "sleeps (trace w3) = sleeps (trace ?w2) @ map (\<lambda>i. interval + jitter w (Suc i)) [0..<k]"
    by (auto simp: send2 jit2 ua2)
  have tr2: "sent_count (trace ?w2) = Suc (sent_count (trace w))"
        "sleeps (trace ?w2) = sleeps (trace w) @ [interval + jitter w 0]"
    by (simp_all add: slept_def obs_append fr)
  show ?case
    using step w3 tr2
    by (intro exI[of _ w3]) (simp add: map_upt_Suc del: upt_Suc)
qed

lemma retry_last:
  assumes "send w 0 (build_request u tok ps w) = Reply code body"
    and "code \<noteq> 429" "\<not> (500 \<le> code \<and> code < 600)"
  shows "fst (request_retry tries u tok ps w)
           = (if 400 \<le> code \<and> code < 500 then Inl (HTTPError code)
              else Inr \<lparr>status_code = code, content = body\<rparr>)"
    and "sent_count (trace (snd (request_retry tries u tok ps w))) = sent_count (trace w) + 1"
    and "sleeps (trace (snd (request_retry tries u tok ps w))) = sleeps (trace w)"
proof -
  obtain r1 w1 where once: "request_once u tok ps w = (r1, w1)" by fastforce
  have r1: "r1 = (if 400 \<le> code \<and> code < 500 then Inl (HTTPError code)
              else Inr \<lparr>status_code = code, content = body\<rparr>)"
    using request_once_fst[of u tok ps w] once assms by auto
  have "request_retry tries u tok ps w = (r1, w1)"
    using once r1 assms
    by (intro retry_stop) (auto simp: giveup_on_http_4xx_except_429_def split: if_splits)
  then show "fst (request_retry tries u tok ps w)
           = (if 400 \<le> code \<and> code < 500 then Inl (HTTPError code)
              else Inr \<lparr>status_code = code, content = body\<rparr>)"
    and "sent_count (trace (snd (request_retry tries u tok ps w))) = sent_count (trace w) + 1"
    and "sleeps (trace (snd (request_retry tries u tok ps w))) = sleeps (trace w)"
    using r1 request_once_world[OF once] by simp_all
qed

lemma request_settles:
  assumes "k < 5"
    and "\<forall>i<k. transient (send w i (build_request u tok ps w))"
    and "\<forall>i<k. 0 \<le> jitter w i"
    and "send w k (build_request u tok ps w) = Reply code body"
    and "code \<noteq> 429" "\<not> (500 \<le> code \<and> code < 600)"
  shows "fst (request u tok ps w)
           = (if 400 \<le> code \<and> code < 500 then Inl (HTTPError code)
              else Inr \<lparr>status_code = code, content = body\<rparr>)"
    and "sent_count (trace (snd (request u tok ps w))) = sent_count (trace w) + k + 1"
    and "sleeps (trace (snd (request u tok ps w)))
           = sleeps (trace w) @ map (\<lambda>i. 30 + jitter w i) [0..<k]"
proof -
  from retry_prefix[of 0 k w u tok ps] assms(1-3)
  obtain w2 where w2: "request_retry 0 u tok ps w = request_retry k u tok ps w2"
    "send w2 = (\<lambda>n. send w (n + k))" "user_agent w2 = user_agent w"
    "sent_count (trace w2) = sent_count (trace w) + k"
    "sleeps (trace w2) = sleeps (trace w) @ map (\<lambda>i. interval + jitter w i) [0..<k]"
    by (auto simp: max_tries_def)
  have s: "send w2 0 (build_request u tok ps w2) = Reply code body"
    using w2(2,3) assms(4) build_request_cong[of w2 w u tok ps] by simp
  note l = retry_last[OF s assms(5,6), of k]
  show "fst (request u tok ps w)
           = (if 400 \<le> code \<and> code < 500 then Inl (HTTPError code)
              else Inr \<lparr>status_code = code, content = body\<rparr>)"
    and "sent_count (trace (snd (request u tok ps w))) = sent_count (trace w) + k + 1"
    and "sleeps (trace (snd (request u tok ps w)))
           = sleeps (trace w) @ map (\<lambda>i. 30 + jitter w i) [0..<k]"
    using l w2 by (simp_all add: request_def interval_def)
qed

text \<open>
  C7: whatever number of transient failures (no response, 429, or 500 to 599) comes
  first, a response with a status from 400 to 499 other than 429 makes \<^verbatim>\<open>request\<close>
  fail with the HTTP error of that status: it is the last request sent, and the only
  sleeps are those of \<open>30 + jitter\<close> after each transient failure before it. A
  response with no error status after such failures is returned in the same way. When
  the transport fails five times in a row with transient failures, \<^verbatim>\<open>request\<close> sends
  exactly five requests, sleeps \<open>30 + jitter\<close> (between 30 and 31) before each of the
  four retries, and ends with the error of the fifth attempt. Whatever the transport
  does, no more than five requests are sent.
\<close>

theorem request_retry_policy:
  "(k < 5 \<and> (\<forall>i<k. transient (send w i (build_request u tok ps w)))
      \<and> (\<forall>i<k. 0 \<le> jitter w i \<and> jitter w i < 1)
      \<and> send w k (build_request u tok ps w) = Reply code body \<and> 400 \<le> code \<and> code < 500
      \<and> code \<noteq> 429 \<longrightarrow>
        fst (request u tok ps w) = Inl (HTTPError code)
        \<and> sent_count (trace (snd (request u tok ps w))) = sent_count (trace w) + k + 1
        \<and> sleeps (trace (snd (request u tok ps w)))
            = sleeps (trace w) @ map (\<lambda>i. 30 + jitter w i) [0..<k])
   \<and> (k < 5 \<and> (\<forall>i<k. transient (send w i (build_request u tok ps w)))
      \<and> (\<forall>i<k. 0 \<le> jitter w i \<and> jitter w i < 1)
      \<and> send w k (build_request u tok ps w) = Reply code body
      \<and> \<not> (400 \<le> code \<and> code < 600) \<longrightarrow>
        fst (request u tok ps w) = Inr \<lparr>status_code = code, content = body\<rparr>
        \<and> sent_count (trace (snd (request u tok ps w))) = sent_count (trace w) + k + 1
        \<and> sleeps (trace (snd (request u tok ps w)))
            = sleeps (trace w) @ map (\<lambda>i. 30 + jitter w i) [0..<k])
   \<and> ((\<forall>k<5. transient (send w k (build_request u tok ps w)))
        \<and> (\<forall>k<4. 0 \<le> jitter w k \<and> jitter w k < 1) \<longrightarrow>
        fst (request u tok ps w) = Inl (reply_error (send w 4 (build_request u tok ps w)))
        \<and> sent_count (trace (snd (request u tok ps w))) = sent_count (trace w) + 5
        \<and> sleeps (trace (snd (request u tok ps w)))
            = sleeps (trace w) @ map (\<lambda>k. 30 + jitter w k) [0..<4]
        \<and> (\<forall>d \<in> set (map (\<lambda>k. 30 + jitter w k) [0..<4]). 30 \<le> d \<and> d < 31))
   \<and> sent_count (trace (snd (request u tok ps w))) \<le> sent_count (trace w) + 5"
proof (intro conjI impI)
  assume a: "k < 5 \<and> (\<forall>i<k. transient (send w i (build_request u tok ps w)))
      \<and> (\<forall>i<k. 0 \<le> jitter w i \<and> jitter w i < 1)
      \<and> send w k (build_request u tok ps w) = Reply code body \<and> 400 \<le> code \<and> code < 500
      \<and> code \<noteq> 429"
  then have h: "k < 5" "\<forall>i<k. transient (send w i (build_request u tok ps w))"
    "\<forall>i<k. 0 \<le> jitter w i" "send w k (build_request u tok ps w) = Reply code body"
    "code \<noteq> 429" "\<not> (500 \<le> code \<and> code < 600)"
    by simp_all
  from request_settles[OF h] a
  show "fst (request u tok ps w) = Inl (HTTPError code)"
    and "sent_count (trace (snd (request u tok ps w))) = sent_count (trace w) + k + 1"
    and "sleeps (trace (snd (request u tok ps w)))
            = sleeps (trace w) @ map (\<lambda>i. 30 + jitter w i) [0..<k]"
    by simp_all
next
  assume a: "k < 5 \<and> (\<forall>i<k. transient (send w i (build_request u tok ps w)))
      \<and> (\<forall>i<k. 0 \<le> jitter w i \<and> jitter w i < 1)
      \<and> send w k (build_request u tok ps w) = Reply code body
      \<and> \<not> (400 \<le> code \<and> code < 600)"
  then have h: "k < 5" "\<forall>i<k. transient (send w i (build_request u tok ps w))"
    "\<forall>i<k. 0 \<le> jitter w i" "send w k (build_request u tok ps w) = Reply code body"
    "code \<noteq> 429" "\<not> (500 \<le> code \<and> code < 600)"
    by auto
  from request_settles[OF h] a
  show "fst (request u tok ps w) = Inr \<lparr>status_code = code, content = body\<rparr>"
    and "sent_count (trace (snd (request u tok ps w))) = sent_count (trace w) + k + 1"
    and "sleeps (trace (snd (request u tok ps w)))
            = sleeps (trace w) @ map (\<lambda>i. 30 + jitter w i) [0..<k]"
    by auto
next
  assume b: "(\<forall>k<5. transient (send w k (build_request u tok ps w)))
        \<and> (\<forall>k<4. 0 \<le> jitter w k \<and> jitter w k < 1)"
  have "\<exists>w'. request_retry 0 u tok ps w =
                 (Inl (reply_error (send w 4 (build_request u tok ps w))), w')
          \<and> sent_count (trace w') = sent_count (trace w) + Suc 4
          \<and> sleeps (trace w') = sleeps (trace w) @ map (\<lambda>k. interval + jitter w k) [0..<4]"
    using b by (intro retry_all_transient) (auto simp: max_tries_def)
  then show "fst (request u tok ps w) = Inl (reply_error (send w 4 (build_request u tok ps w)))"
    and "sent_count (trace (snd (request u tok ps w))) = sent_count (trace w) + 5"
    and "sleeps (trace (snd (request u tok ps w)))
            = sleeps (trace w) @ map (\<lambda>k. 30 + jitter w k) [0..<4]"
    by (auto simp: request_def interval_def)
  show "\<forall>d \<in> set (map (\<lambda>k. 30 + jitter w k) [0..<4]). 30 \<le> d \<and> d < 31"
    using b by auto
next
  obtain r w' where r: "request_retry 0 u tok ps w = (r, w')" by fastforce
  from retry_frame[OF r] show "sent_count (trace (snd (request u tok ps w))) \<le> sent_count (trace w) + 5"
    by (simp add: request_def r max_tries_def)
qed

theorem request_retry_policy_witness:
  "send (world_of forbidden_send steady_clock) 0
       (build_request BASE_URL ''token'' Map.empty (world_of forbidden_send steady_clock))
     = Reply 404 None
   \<and> (400::int) \<le> 404 \<and> (404::int) < 500 \<and> (404::int) \<noteq> 429
   \<and> fst (request BASE_URL ''token'' Map.empty (world_of forbidden_send steady_clock))
       = Inl (HTTPError 404)
   \<and> sent_count (trace (snd (request BASE_URL ''token'' Map.empty
        (world_of forbidden_send steady_clock)))) = 1
   \<and> sleeps (trace (snd (request BASE_URL ''token'' Map.empty
        (world_of forbidden_send steady_clock)))) = []
   \<and> transient (send (world_of rejecting_send steady_clock) 0
        (build_request BASE_URL ''token'' Map.empty (world_of rejecting_send steady_clock)))
   \<and> send (world_of rejecting_send steady_clock) 1
        (build_request BASE_URL ''token'' Map.empty (world_of rejecting_send steady_clock))
       = Reply 404 None
   \<and> fst (request BASE_URL ''token'' Map.empty (world_of rejecting_send steady_clock))
       = Inl (HTTPError 404)
   \<and> sent_count (trace (snd (request BASE_URL ''token'' Map.empty
        (world_of rejecting_send steady_clock)))) = 2
   \<and> sleeps (trace (snd (request BASE_URL ''token'' Map.empty
        (world_of rejecting_send steady_clock)))) = [61 / 2]
   \<and> transient (send (world_of recovering_send steady_clock) 0
        (build_request BASE_URL ''token'' Map.empty (world_of recovering_send steady_clock)))
   \<and> send (world_of recovering_send steady_clock) 1
        (build_request BASE_URL ''token'' Map.empty (world_of recovering_send steady_clock))
       = Reply 200 None
   \<and> fst (request BASE_URL ''token'' Map.empty (world_of recovering_send steady_clock))
       = Inr \<lparr>status_code = 200, content = None\<rparr>
   \<and> sent_count (trace (snd (request BASE_URL ''token'' Map.empty
        (world_of recovering_send steady_clock)))) = 2
   \<and> sleeps (trace (snd (request BASE_URL ''token'' Map.empty
        (world_of recovering_send steady_clock)))) = [61 / 2]
   \<and> list_all (\<lambda>k. transient (send (world_of flaky_send steady_clock) k
        (build_request BASE_URL ''token'' Map.empty (world_of flaky_send steady_clock))))
        [0..<5]
   \<and> list_all (\<lambda>k. 0 \<le> jitter (world_of flaky_send steady_clock) k
        \<and> jitter (world_of flaky_send steady_clock) k < 1) [0..<4]
   \<and> fst (request BASE_URL ''token'' Map.empty (world_of flaky_send steady_clock))
       = Inl (HTTPError 503)
   \<and> sent_count (trace (snd (request BASE_URL ''token'' Map.empty
        (world_of flaky_send steady_clock)))) = 5
   \<and> sleeps (trace (snd (request BASE_URL ''token'' Map.empty
        (world_of flaky_send steady_clock)))) = [61 / 2, 61 / 2, 61 / 2, 61 / 2]"
proof -
  let ?f = "world_of forbidden_send steady_clock"
  let ?r = "world_of rejecting_send steady_clock"
  let ?c = "world_of recovering_send steady_clock"
  let ?w = "world_of flaky_send steady_clock"
  have z: "sent_count (trace (world_of srv laps)) = 0" "sleeps (trace (world_of srv laps)) = []"
    "jitter (world_of srv laps) = (\<lambda>k. 1 / 2)" "send (world_of srv laps) = srv" for srv laps
    by (simp_all add: world_of_def)
  have f: "send ?f 0 (build_request BASE_URL ''token'' Map.empty ?f) = Reply 404 None"
    by (simp add: z forbidden_send_def)
  have r: "\<forall>i<1. transient (send ?r i (build_request BASE_URL ''token'' Map.empty ?r))"
    "send ?r 1 (build_request BASE_URL ''token'' Map.empty ?r) = Reply 404 None"
    by (simp_all add: z rejecting_send_def transient_def)
  have c: "\<forall>i<1. transient (send ?c i (build_request BASE_URL ''token'' Map.empty ?c))"
    "send ?c 1 (build_request BASE_URL ''token'' Map.empty ?c) = Reply 200 None"
    by (simp_all add: z recovering_send_def transient_def)
  have t: "\<forall>k<5. transient (send ?w k (build_request BASE_URL ''token'' Map.empty ?w))"
    by (simp add: z flaky_send_def transient_def)
  have e: "reply_error (send ?w 4 (build_request BASE_URL ''token'' Map.empty ?w))
             = HTTPError 503"
    by (simp add: z flaky_send_def reply_error_def)
  have u: "[0..<4] = [0, 1, 2, 3]" "[0..<1] = [0]" by (simp_all add: upt_rec)
  show ?thesis
    using f r c t e
      request_retry_policy [where w = ?f and u = BASE_URL and tok = "''token''"
        and ps = Map.empty and k = 0 and code = 404 and body = None]
      request_retry_policy [where w = ?r and u = BASE_URL and tok = "''token''"
        and ps = Map.empty and k = 1 and code = 404 and body = None]
      request_retry_policy [where w = ?c and u = BASE_URL and tok = "''token''"
        and ps = Map.empty and k = 1 and code = 200 and body = None]
      request_retry_policy [where w = ?w and u = BASE_URL and tok = "''token''"
        and ps = Map.empty]
    by (simp add: z u list_all_iff)
qed

subsection \<open>Performance sync\<close>

lemma emit_fields:
  "trace (emit e w) = trace w @ [e]" "clock (emit e w) = clock w" "lapse (emit e w) = lapse w"
  "send (emit e w) = send w" "jitter (emit e w) = jitter w" "user_agent (emit e w) = user_agent w"
  "today (emit e w) = today w" "DEFAULT_START_DATE (emit e w) = DEFAULT_START_DATE w"
  by (simp_all add: emit_def)

lemma write_records_trace:
  "trace (foldl (\<lambda>v record. emit (WroteRecord tn record t) v) w rs)
     = trace w @ map (\<lambda>record. WroteRecord tn record t) rs"
  by (induction rs arbitrary: w) (simp_all add: emit_fields)

lemma obs_records:
  "records (map (\<lambda>record. WroteRecord tn record t) rs) = rs"
  "state_writes (map (\<lambda>record. WroteRecord tn record t) rs) = []"
  "warnings (map (\<lambda>record. WroteRecord tn record t) rs) = 0"
  "sleeps (map (\<lambda>record. WroteRecord tn record t) rs) = []"
  "sent_count (map (\<lambda>record. WroteRecord tn record t) rs) = 0"
  by (induction rs) simp_all

lemma pace_frame:
  assumes "pace t w = (out, w')"
  shows "records (trace w') = records (trace w)"
    "state_writes (trace w') = state_writes (trace w)"
    "warnings (trace w') = warnings (trace w)"
    "sent_count (trace w') = sent_count (trace w)"
    "out = None \<or> out = Some ValueError"
  using assms
  by (auto simp: pace_def Let_def now_def emit_fields time_sleep_def obs_append
        split: if_splits)

lemmas process_report_simps = process_report_def Let_def now_def emit_fields split_beta
  obs_append write_records_trace obs_records REPORTS_MARKETERS_PERIODIC_MAX_LIMIT_def





lemma process_report_empty:
  assumes "results response = Some []"
  shows "\<exists>e w'. process_report st tn sid ef response w3 = (Some e, st, w')
           \<and> (e = IndexError \<or> e = TypeError)
           \<and> (totalResults response \<noteq> None \<longrightarrow> e = IndexError)
           \<and> state_writes (trace w') = state_writes (trace w3)
           \<and> records (trace w') = records (trace w3)"
  using assms
  by (auto simp: process_report_simps split: option.splits)

lemma process_report_done:
  assumes "process_report st tn sid ef response w3 = (None, st', w')"
  shows "\<exists>sub rs performance. performance \<noteq> [] \<and> results response = Some rs
           \<and> performance_of rs ef = Inr performance \<and> st tn = Some sub
           \<and> st' = st(tn \<mapsto> sub(sid \<mapsto> dict_get (last performance) ''fromDate''))
           \<and> records (trace w') = records (trace w3) @ performance
           \<and> state_writes (trace w') = state_writes (trace w3) @ [st']"
proof -
  have fr: "records (trace (snd (pace t w))) = records (trace w)"
      "state_writes (trace (snd (pace t w))) = state_writes (trace w)" for t w
    using pace_frame(1,2)[of t w "fst (pace t w)" "snd (pace t w)"] by simp_all
  show ?thesis using assms
    by (auto simp: process_report_simps fr
          split: option.splits list.splits if_splits sum.splits)
qed

lemma request_frame:
  assumes "request u tok ps w = (r, w')"
  shows "records (trace w') = records (trace w)"
    "state_writes (trace w') = state_writes (trace w)"
    "warnings (trace w') = warnings (trace w)"
  using retry_frame[of 0 u tok ps w r w'] assms by (simp_all add: request_def)

lemma report_request_frame:
  assumes "report_request tok acct tn ep ef dr w = (r, w3)"
  shows "records (trace w3) = records (trace w)"
    "state_writes (trace w3) = state_writes (trace w)"
    "warnings (trace w3) = warnings (trace w)"
proof -
  let ?ps = "[''from'' \<mapsto> PyDate (from_date dr),
                ''to'' \<mapsto> PyDate (to_date dr),
                ''breakdown'' \<mapsto> PyStr ''daily'',
                ''limit'' \<mapsto> PyInt REPORTS_MARKETERS_PERIODIC_MAX_LIMIT,
                ''sort'' \<mapsto> PyStr ''+fromDate'',
                ''includeArchivedCampaigns'' \<mapsto> PyBool True] ++ ep"
  let ?w2 = "snd (now (emit (Log LInfo ''Pulling {} for {} from {} to {}'') w))"
  let ?u = "BASE_URL @ ''/reports/marketers/'' @ acct @ ''/periodic''"
  obtain r1 w1 where rq: "request ?u tok ?ps ?w2 = (r1, w1)" by fastforce
  have w3: "w3 = w1" using assms rq
    by (simp add: report_request_def Let_def split_beta split: sum.splits)
  have w2: "records (trace ?w2) = records (trace w)"
    "state_writes (trace ?w2) = state_writes (trace w)"
    "warnings (trace ?w2) = warnings (trace w)"
    by (simp_all add: now_def Let_def emit_fields obs_append)
  show "records (trace w3) = records (trace w)"
    "state_writes (trace w3) = state_writes (trace w)"
    "warnings (trace w3) = warnings (trace w)"
    using request_frame[OF rq] w2 w3 by simp_all
qed

lemma request_ok:
  assumes "send w 0 (build_request u tok ps w) = Reply code body" "code < 400"
  shows "fst (request u tok ps w) = Inr \<lparr>status_code = code, content = body\<rparr>"
    "clock (snd (request u tok ps w)) = clock w"
    "lapse (snd (request u tok ps w)) = lapse w"
proof -
  obtain r1 w1 where once: "request_once u tok ps w = (r1, w1)" by fastforce
  have r1: "r1 = Inr \<lparr>status_code = code, content = body\<rparr>"
    using request_once_fst[of u tok ps w] once assms by simp
  have "request u tok ps w = (r1, w1)"
    unfolding request_def using once r1 by (intro retry_stop) auto
  then show "fst (request u tok ps w) = Inr \<lparr>status_code = code, content = body\<rparr>"
    "clock (snd (request u tok ps w)) = clock w"
    "lapse (snd (request u tok ps w)) = lapse w"
    using r1 request_once_world[OF once] by simp_all
qed

lemma report_request_ok:
  assumes "\<And>req. send w 0 req = Reply 200 (Some j)"
  shows "fst (report_request tok acct tn ep ef dr w) = Inr j"
    "clock (snd (report_request tok acct tn ep ef dr w)) = clock w + lapse w 0"
    "lapse (snd (report_request tok acct tn ep ef dr w)) = (\<lambda>n. lapse w (Suc n))"
proof -
  let ?ps = "[''from'' \<mapsto> PyDate (from_date dr),
                ''to'' \<mapsto> PyDate (to_date dr),
                ''breakdown'' \<mapsto> PyStr ''daily'',
                ''limit'' \<mapsto> PyInt REPORTS_MARKETERS_PERIODIC_MAX_LIMIT,
                ''sort'' \<mapsto> PyStr ''+fromDate'',
                ''includeArchivedCampaigns'' \<mapsto> PyBool True] ++ ep"
  let ?w2 = "snd (now (emit (Log LInfo ''Pulling {} for {} from {} to {}'') w))"
  let ?u = "BASE_URL @ ''/reports/marketers/'' @ acct @ ''/periodic''"
  have s2: "send ?w2 0 (build_request ?u tok ?ps ?w2) = Reply 200 (Some j)"
    using assms by (simp add: now_def Let_def emit_fields)
  note ok = request_ok[OF s2]
  have w2: "clock ?w2 = clock w + lapse w 0" "lapse ?w2 = (\<lambda>n. lapse w (Suc n))"
    by (simp_all add: now_def Let_def emit_fields)
  show "fst (report_request tok acct tn ep ef dr w) = Inr j"
    "clock (snd (report_request tok acct tn ep ef dr w)) = clock w + lapse w 0"
    "lapse (snd (report_request tok acct tn ep ef dr w)) = (\<lambda>n. lapse w (Suc n))"
    using ok w2
    by (simp_all add: report_request_def Let_def split_beta json_of_def split: sum.splits)
qed

lemma pace_outcome:
  "fst (pace t w) =
     (if clock w + lapse w 0 - t < 30 \<and> 30 - (clock w + lapse w 0 + lapse w 1 - t) < 0
      then Some ValueError else None)"
  by (simp add: pace_def Let_def now_def emit_fields time_sleep_def)

lemma pace_gap:
  assumes "pace t w = (None, w')" "0 \<le> lapse w 0" "0 \<le> lapse w 1"
  shows "t + 30 \<le> clock w'"
  using assms
  by (auto simp: pace_def Let_def now_def emit_def time_sleep_def split: if_splits)

lemma process_report_ok:
  assumes "totalResults response = Some n" "results response = Some rs"
    "performance_of rs ef = Inr performance" "performance \<noteq> []" "st tn = Some sub"
  shows "fst (process_report st tn sid ef response w3) =
           (if lapse w3 1 < 30 \<and> 30 - (lapse w3 1 + lapse w3 2) < 0
            then Some ValueError else None)"
    "fst (snd (process_report st tn sid ef response w3)) =
       st(tn \<mapsto> sub(sid \<mapsto> dict_get (last performance) ''fromDate''))"
proof -
  have wr: "clock (foldl (\<lambda>v record. emit (WroteRecord tn record t) v) w xs) = clock w"
    "lapse (foldl (\<lambda>v record. emit (WroteRecord tn record t) v) w xs) = lapse w" for t w xs
    by (induction xs arbitrary: w) (simp_all add: emit_fields)
  show "fst (process_report st tn sid ef response w3) =
           (if lapse w3 1 < 30 \<and> 30 - (lapse w3 1 + lapse w3 2) < 0
            then Some ValueError else None)"
    using assms
    by (cases performance)
       (simp_all add: process_report_def Let_def split_beta now_def emit_fields pace_outcome wr
          numeral_2_eq_2)
  show "fst (snd (process_report st tn sid ef response w3)) =
       st(tn \<mapsto> sub(sid \<mapsto> dict_get (last performance) ''fromDate''))"
    using assms
    by (cases performance) (simp_all add: process_report_def Let_def split_beta)
qed

lemma sync_window_unfold:
  "sync_window st tok acct tn sid ep ef dr w =
     (case fst (report_request tok acct tn ep ef dr w) of
        Inl e \<Rightarrow> (Some e, st, snd (report_request tok acct tn ep ef dr w))
      | Inr response \<Rightarrow>
          process_report st tn sid ef response (snd (report_request tok acct tn ep ef dr w)))"
  by (simp add: sync_window_def split_beta split: sum.splits prod.splits)

lemma sync_window_done:
  assumes "sync_window st tok acct tn sid ep ef dr w = (None, st', w')"
  shows "\<exists>sub new. new \<noteq> [] \<and> st tn = Some sub
           \<and> st' = st(tn \<mapsto> sub(sid \<mapsto> dict_get (last new) ''fromDate''))
           \<and> records (trace w') = records (trace w) @ new
           \<and> state_writes (trace w') = state_writes (trace w) @ [st']"
proof -
  obtain r w3 where rr: "report_request tok acct tn ep ef dr w = (r, w3)" by fastforce
  from assms rr obtain response where resp: "r = Inr response"
    and pr: "process_report st tn sid ef response w3 = (None, st', w')"
    by (auto simp: sync_window_unfold split: sum.splits)
  from process_report_done[OF pr] obtain sub new where new: "new \<noteq> []" "st tn = Some sub"
    "st' = st(tn \<mapsto> sub(sid \<mapsto> dict_get (last new) ''fromDate''))"
    "records (trace w') = records (trace w3) @ new"
    "state_writes (trace w') = state_writes (trace w3) @ [st']"
    by blast
  then show ?thesis using report_request_frame(1,2)[OF rr]
    by (intro exI[of _ sub] exI[of _ new]) simp
qed

lemma sync_windows_done:
  assumes "sync_windows st tok acct tn sid ep ef drs w = (None, st', w')" "drs \<noteq> []"
  shows "\<exists>new sts. new \<noteq> [] \<and> records (trace w') = records (trace w) @ new
           \<and> cursor st' tn sid = Some (dict_get (last new) ''fromDate'')
           \<and> state_writes (trace w') = state_writes (trace w) @ sts
           \<and> length sts = length drs \<and> last sts = st'"
  using assms
proof (induction drs arbitrary: st w)
  case Nil
  then show ?case by simp
next
  case (Cons dr drs)
  obtain out st1 w1 where sw: "sync_window st tok acct tn sid ep ef dr w = (out, st1, w1)"
    by (metis prod_cases3)
  have out: "out = None" using Cons.prems(1) sw by (cases out) auto
  then have rest: "sync_windows st1 tok acct tn sid ep ef drs w1 = (None, st', w')"
    using Cons.prems(1) sw by simp
  from sync_window_done[OF sw[unfolded out]] obtain sub new1 where n1: "new1 \<noteq> []"
    "st tn = Some sub" "st1 = st(tn \<mapsto> sub(sid \<mapsto> dict_get (last new1) ''fromDate''))"
    "records (trace w1) = records (trace w) @ new1"
    "state_writes (trace w1) = state_writes (trace w) @ [st1]" by blast
  show ?case
  proof (cases drs)
    case Nil
    then have "st' = st1" "w' = w1" using rest by simp_all
    then show ?thesis using n1 Nil
      by (intro exI[of _ new1] exI[of _ "[st1]"]) (simp add: cursor_def)
  next
    case (Cons d ds)
    then have "drs \<noteq> []" by simp
    from Cons.IH[OF rest this] obtain new2 sts where n2: "new2 \<noteq> []"
      "records (trace w') = records (trace w1) @ new2"
      "cursor st' tn sid = Some (dict_get (last new2) ''fromDate'')"
      "state_writes (trace w') = state_writes (trace w1) @ sts"
      "length sts = length drs" "last sts = st'" by blast
    have "sts \<noteq> []" using n2(5) Cons by auto
    then show ?thesis using n1 n2
      by (intro exI[of _ "new1 @ new2"] exI[of _ "st1 # sts"]) simp
  qed
qed

subsection \<open>One window, evaluated\<close>

text \<open>
  The run of \<^verbatim>\<open>sync_campaign_performance\<close> for a campaign whose cursor is 2021-01-05,
  on 2021-01-10, against a report server: one window, from 2021-01-03 to 2021-01-10.
\<close>

lemma sync_windows_single:
  "sync_windows st tok acct tn sid ep ef [dr] w = sync_window st tok acct tn sid ep ef dr w"
  by (cases "sync_window st tok acct tn sid ep ef dr w" rule: prod_cases3)
     (auto split: option.splits)

lemma example_plan:
  "sync_date_ranges (state_of ''c1'' ''2021-01-05'') ''campaign_performance'' ''c1''
       (world_of srv laps)
     = Some (Inr [\<lparr>from_date = ymd2ord 2021 1 3, to_date = ymd2ord 2021 1 10\<rparr>])"
  by (simp add: sync_date_ranges_def sync_from_date_def get_default_def state_of_def
        world_of_def strptime_values ymd2ord_values date_add_days_def MAXORDINAL_def
        get_date_ranges_def date_ranges_loop.simps REPORTS_MARKETERS_PERIODIC_MAX_LIMIT_def)

lemma example_request:
  "fst (report_request tok acct tn ep ef dr (world_of (report_send body) laps)) = Inr body"
  "clock (snd (report_request tok acct tn ep ef dr (world_of (report_send body) laps))) = laps 0"
  "lapse (snd (report_request tok acct tn ep ef dr (world_of (report_send body) laps)))
     = (\<lambda>n. laps (Suc n))"
  using report_request_ok[of "world_of (report_send body) laps" body tok acct tn ep ef dr]
  by (simp_all add: world_of_def report_send_def)

lemma example_run:
  "sync_campaign_performance (state_of ''c1'' ''2021-01-05'') tok acct ''c1''
       (world_of (report_send body) laps)
     = Some (process_report (state_of ''c1'' ''2021-01-05'') ''campaign_performance'' ''c1''
         [''campaignId'' \<mapsto> PyStr ''c1''] body
         (snd (report_request tok acct ''campaign_performance''
            [''campaignId'' \<mapsto> PyStr ''c1''] [''campaignId'' \<mapsto> PyStr ''c1'']
            \<lparr>from_date = ymd2ord 2021 1 3, to_date = ymd2ord 2021 1 10\<rparr>
            (world_of (report_send body) laps))))"
  by (simp add: sync_campaign_performance_def sync_performance_def example_plan
        sync_windows_single sync_window_unfold example_request del: sync_windows.simps)

lemma example_rows:
  "parse_performance (report_row d) ef = Inr (row_record d ef)"
  "performance_of [report_row d] ef = Inr [row_record d ef]"
  by (simp_all add: parse_performance_def report_row_def row_record_def then_do_def py_int_def
        py_float_def get_default_def dict_get_def Let_def)

lemma example_row:
  "dict_get (row_record d [''campaignId'' \<mapsto> PyStr c]) ''fromDate'' = PyStr d"
  by (simp add: row_record_def dict_get_def map_add_def)

lemma example_one_row:
  "outcome (sync_campaign_performance (state_of ''c1'' ''2021-01-05'') tok acct ''c1''
       (world_of (report_send (report_body (Some n) (Some [report_row d]))) laps))
     = Some (if laps 2 < 30 \<and> 30 - (laps 2 + laps 3) < 0 then Some ValueError else None)"
  "final_cursor (sync_campaign_performance (state_of ''c1'' ''2021-01-05'') tok acct ''c1''
       (world_of (report_send (report_body (Some n) (Some [report_row d]))) laps))
       ''campaign_performance'' ''c1''
     = Some (PyStr d)"
proof -
  let ?body = "report_body (Some n) (Some [report_row d])"
  let ?st = "state_of ''c1'' ''2021-01-05''"
  have b: "totalResults ?body = Some n" "results ?body = Some [report_row d]"
    by (simp_all add: report_body_def)
  have s: "?st ''campaign_performance'' = Some [''c1'' \<mapsto> PyStr ''2021-01-05'']"
    by (simp add: state_of_def)
  have pr: "fst (process_report ?st ''campaign_performance'' ''c1'' ef ?body w3)
        = (if lapse w3 1 < 30 \<and> 30 - (lapse w3 1 + lapse w3 2) < 0 then Some ValueError else None)"
    "fst (snd (process_report ?st ''campaign_performance'' ''c1'' ef ?body w3))
        = ?st(''campaign_performance'' \<mapsto> [''c1'' \<mapsto> PyStr ''2021-01-05'']
            (''c1'' \<mapsto> dict_get (row_record d ef) ''fromDate''))"
    for ef w3
    using process_report_ok[where response = ?body and n = n
        and rs = "[report_row d]" and performance = "[row_record d ef]" and st = ?st
        and tn = "''campaign_performance''"
        and sub = "[''c1'' \<mapsto> PyStr ''2021-01-05'']" and sid = "''c1''" and ef = ef
        and ?w3.0 = w3] b s example_rows(2)[of d ef]
    by simp_all
  show "outcome (sync_campaign_performance ?st tok acct ''c1'' (world_of (report_send ?body) laps))
     = Some (if laps 2 < 30 \<and> 30 - (laps 2 + laps 3) < 0 then Some ValueError else None)"
    by (simp add: example_run outcome_def pr example_request numeral_2_eq_2 numeral_3_eq_3)
  show "final_cursor (sync_campaign_performance ?st tok acct ''c1''
       (world_of (report_send ?body) laps)) ''campaign_performance'' ''c1'' = Some (PyStr d)"
    by (simp add: example_run final_cursor_def cursor_def pr example_row split_beta)
qed

lemma report_request_frame':
  "records (trace (snd (report_request tok acct tn ep ef dr w))) = records (trace w)"
  "state_writes (trace (snd (report_request tok acct tn ep ef dr w))) = state_writes (trace w)"
  "warnings (trace (snd (report_request tok acct tn ep ef dr w))) = warnings (trace w)"
  using report_request_frame[of tok acct tn ep ef dr w
          "fst (report_request tok acct tn ep ef dr w)"
          "snd (report_request tok acct tn ep ef dr w)"]
  by simp_all

subsection \<open>The cursor\<close>

lemma example_idle_plan:
  "sync_date_ranges (state_of ''c1'' ''2021-01-20'') ''campaign_performance'' ''c1''
       (world_of srv laps) = Some (Inr [])"
  by (simp add: sync_date_ranges_def sync_from_date_def get_default_def state_of_def
        world_of_def strptime_values date_add_days_def MAXORDINAL_def
        get_date_ranges_def ymd2ord_values REPORTS_MARKETERS_PERIODIC_MAX_LIMIT_def)

text \<open>
  C2, as amended: when \<^verbatim>\<open>sync_performance\<close> returns without an exception, either no
  window was planned, and state and world are untouched, or windows were planned,
  records were emitted and the stored cursor of the entity is the \<^verbatim>\<open>fromDate\<close> of
  the last record emitted; the state was written once for each window, the last time
  with that cursor.
\<close>

theorem cursor_after_sync:
  assumes "outcome (sync_performance st tok acct tn sid ep ef w) = Some None"
  shows "(sync_date_ranges st tn sid w = Some (Inr [])
          \<and> sync_performance st tok acct tn sid ep ef w = Some (None, st, w))
    \<or> (\<exists>drs new sts. sync_date_ranges st tn sid w = Some (Inr drs) \<and> drs \<noteq> [] \<and> new \<noteq> []
          \<and> records (final_trace (sync_performance st tok acct tn sid ep ef w))
              = records (trace w) @ new
          \<and> final_cursor (sync_performance st tok acct tn sid ep ef w) tn sid
              = Some (dict_get (last new) ''fromDate'')
          \<and> state_writes (final_trace (sync_performance st tok acct tn sid ep ef w))
              = state_writes (trace w) @ sts
          \<and> length sts = length drs
          \<and> cursor (last sts) tn sid = Some (dict_get (last new) ''fromDate''))"
proof -
  from assms obtain st' w' where r: "sync_performance st tok acct tn sid ep ef w = Some (None, st', w')"
    by (auto simp: outcome_def)
  then obtain drs where drs: "sync_date_ranges st tn sid w = Some (Inr drs)"
    and sw: "sync_windows st tok acct tn sid ep ef drs w = (None, st', w')"
    by (auto simp: sync_performance_def split: option.splits sum.splits)
  show ?thesis
  proof (cases drs)
    case Nil
    then show ?thesis using sw r drs by simp
  next
    case (Cons d ds)
    then have ne: "drs \<noteq> []" by simp
    from sync_windows_done[OF sw ne] obtain new sts where "new \<noteq> []"
      "records (trace w') = records (trace w) @ new"
      "cursor st' tn sid = Some (dict_get (last new) ''fromDate'')"
      "state_writes (trace w') = state_writes (trace w) @ sts"
      "length sts = length drs" "last sts = st'" by blast
    then have "\<exists>drs new sts. sync_date_ranges st tn sid w = Some (Inr drs) \<and> drs \<noteq> []
          \<and> new \<noteq> []
          \<and> records (final_trace (sync_performance st tok acct tn sid ep ef w))
              = records (trace w) @ new
          \<and> final_cursor (sync_performance st tok acct tn sid ep ef w) tn sid
              = Some (dict_get (last new) ''fromDate'')
          \<and> state_writes (final_trace (sync_performance st tok acct tn sid ep ef w))
              = state_writes (trace w) @ sts
          \<and> length sts = length drs
          \<and> cursor (last sts) tn sid = Some (dict_get (last new) ''fromDate'')"
      using r drs ne
      by (intro exI[of _ drs] exI[of _ new] exI[of _ sts])
         (simp add: final_trace_def final_cursor_def)
    then show ?thesis by (rule disjI2)
  qed
qed

text \<open>
  C2 as stated also promises that the cursor never moves back. The cursor is overwritten
  with the \<^verbatim>\<open>fromDate\<close> of the last row with no comparison, and the window starts two
  days before the cursor: with the cursor on 2021-01-05 and a report whose only row is of
  2021-01-03, the run ends normally with the cursor on 2021-01-03.
\<close>

theorem cursor_moves_back:
  "outcome (sync_campaign_performance (state_of ''c1'' ''2021-01-05'') ''token'' ''acct'' ''c1''
       (world_of (report_send (report_body (Some 1) (Some [report_row ''2021-01-03''])))
          steady_clock))
     = Some None
   \<and> cursor (state_of ''c1'' ''2021-01-05'') ''campaign_performance'' ''c1''
       = Some (PyStr ''2021-01-05'')
   \<and> final_cursor (sync_campaign_performance (state_of ''c1'' ''2021-01-05'') ''token'' ''acct''
       ''c1'' (world_of (report_send (report_body (Some 1) (Some [report_row ''2021-01-03''])))
          steady_clock)) ''campaign_performance'' ''c1''
       = Some (PyStr ''2021-01-03'')
   \<and> strptime_ymd ''2021-01-03'' = Inr (ymd2ord 2021 1 3)
   \<and> strptime_ymd ''2021-01-05'' = Inr (ymd2ord 2021 1 5)
   \<and> ymd2ord 2021 1 3 < ymd2ord 2021 1 5"
  by (simp add: example_one_row steady_clock_def strptime_values ymd2ord_values)
     (simp add: cursor_def state_of_def)

theorem cursor_after_sync_witness:
  "outcome (sync_performance (state_of ''c1'' ''2021-01-05'') ''token'' ''acct''
       ''campaign_performance'' ''c1'' [''campaignId'' \<mapsto> PyStr ''c1'']
       [''campaignId'' \<mapsto> PyStr ''c1'']
       (world_of (report_send (report_body (Some 1) (Some [report_row ''2021-01-09''])))
          steady_clock)) = Some None
   \<and> sync_date_ranges (state_of ''c1'' ''2021-01-05'') ''campaign_performance'' ''c1''
       (world_of (report_send (report_body (Some 1) (Some [report_row ''2021-01-09''])))
          steady_clock)
       = Some (Inr [\<lparr>from_date = ymd2ord 2021 1 3, to_date = ymd2ord 2021 1 10\<rparr>])
   \<and> (\<exists>new. new \<noteq> []
        \<and> records (final_trace (sync_performance (state_of ''c1'' ''2021-01-05'') ''token'' ''acct''
       ''campaign_performance'' ''c1'' [''campaignId'' \<mapsto> PyStr ''c1'']
       [''campaignId'' \<mapsto> PyStr ''c1'']
       (world_of (report_send (report_body (Some 1) (Some [report_row ''2021-01-09''])))
          steady_clock)))
            = records (trace (world_of (report_send (report_body (Some 1) (Some [report_row ''2021-01-09''])))
          steady_clock)) @ new
        \<and> final_cursor (sync_performance (state_of ''c1'' ''2021-01-05'') ''token'' ''acct''
       ''campaign_performance'' ''c1'' [''campaignId'' \<mapsto> PyStr ''c1'']
       [''campaignId'' \<mapsto> PyStr ''c1'']
       (world_of (report_send (report_body (Some 1) (Some [report_row ''2021-01-09''])))
          steady_clock)) ''campaign_performance'' ''c1''
            = Some (dict_get (last new) ''fromDate''))
   \<and> final_cursor (sync_performance (state_of ''c1'' ''2021-01-05'') ''token'' ''acct''
       ''campaign_performance'' ''c1'' [''campaignId'' \<mapsto> PyStr ''c1'']
       [''campaignId'' \<mapsto> PyStr ''c1'']
       (world_of (report_send (report_body (Some 1) (Some [report_row ''2021-01-09''])))
          steady_clock)) ''campaign_performance'' ''c1''
       = Some (PyStr ''2021-01-09'')
   \<and> outcome (sync_performance (state_of ''c1'' ''2021-01-20'') ''token'' ''acct''
       ''campaign_performance'' ''c1'' [''campaignId'' \<mapsto> PyStr ''c1'']
       [''campaignId'' \<mapsto> PyStr ''c1'']
       (world_of (report_send (report_body (Some 1) (Some [report_row ''2021-01-09''])))
          steady_clock)) = Some None
   \<and> sync_date_ranges (state_of ''c1'' ''2021-01-20'') ''campaign_performance'' ''c1''
       (world_of (report_send (report_body (Some 1) (Some [report_row ''2021-01-09''])))
          steady_clock) = Some (Inr [])
   \<and> sync_performance (state_of ''c1'' ''2021-01-20'') ''token'' ''acct''
       ''campaign_performance'' ''c1'' [''campaignId'' \<mapsto> PyStr ''c1'']
       [''campaignId'' \<mapsto> PyStr ''c1'']
       (world_of (report_send (report_body (Some 1) (Some [report_row ''2021-01-09''])))
          steady_clock)
       = Some (None, state_of ''c1'' ''2021-01-20'', world_of (report_send (report_body (Some 1) (Some [report_row ''2021-01-09''])))
          steady_clock)"
proof -
  let ?w = "world_of (report_send (report_body (Some 1) (Some [report_row ''2021-01-09''])))
          steady_clock"
  have h: "outcome (sync_performance (state_of ''c1'' ''2021-01-05'') ''token'' ''acct''
       ''campaign_performance'' ''c1'' [''campaignId'' \<mapsto> PyStr ''c1'']
       [''campaignId'' \<mapsto> PyStr ''c1'']
       (world_of (report_send (report_body (Some 1) (Some [report_row ''2021-01-09''])))
          steady_clock)) = Some None"
    using example_one_row(1)[of "''token''" "''acct''" 1 "''2021-01-09''" steady_clock]
    by (simp add: sync_campaign_performance_def steady_clock_def)
  have c: "final_cursor (sync_performance (state_of ''c1'' ''2021-01-05'') ''token'' ''acct''
       ''campaign_performance'' ''c1'' [''campaignId'' \<mapsto> PyStr ''c1'']
       [''campaignId'' \<mapsto> PyStr ''c1'']
       (world_of (report_send (report_body (Some 1) (Some [report_row ''2021-01-09''])))
          steady_clock)) ''campaign_performance'' ''c1''
       = Some (PyStr ''2021-01-09'')"
    using example_one_row(2)[of "''token''" "''acct''" 1 "''2021-01-09''" steady_clock]
    by (simp add: sync_campaign_performance_def)
  have p: "sync_date_ranges (state_of ''c1'' ''2021-01-05'') ''campaign_performance'' ''c1''
       (world_of (report_send (report_body (Some 1) (Some [report_row ''2021-01-09''])))
          steady_clock)
       = Some (Inr [\<lparr>from_date = ymd2ord 2021 1 3, to_date = ymd2ord 2021 1 10\<rparr>])"
    by (rule example_plan)
  have i: "sync_date_ranges (state_of ''c1'' ''2021-01-20'') ''campaign_performance'' ''c1''
       (world_of (report_send (report_body (Some 1) (Some [report_row ''2021-01-09''])))
          steady_clock) = Some (Inr [])"
    by (rule example_idle_plan)
  have r: "sync_performance (state_of ''c1'' ''2021-01-20'') ''token'' ''acct''
       ''campaign_performance'' ''c1'' [''campaignId'' \<mapsto> PyStr ''c1'']
       [''campaignId'' \<mapsto> PyStr ''c1'']
       (world_of (report_send (report_body (Some 1) (Some [report_row ''2021-01-09''])))
          steady_clock)
       = Some (None, state_of ''c1'' ''2021-01-20'', ?w)"
    by (simp add: sync_performance_def i)
  have g: "outcome (sync_performance (state_of ''c1'' ''2021-01-20'') ''token'' ''acct''
       ''campaign_performance'' ''c1'' [''campaignId'' \<mapsto> PyStr ''c1'']
       [''campaignId'' \<mapsto> PyStr ''c1'']
       (world_of (report_send (report_body (Some 1) (Some [report_row ''2021-01-09''])))
          steady_clock)) = Some None"
    by (simp add: r outcome_def)
  show ?thesis
    using h c p i r g cursor_after_sync[OF h] cursor_after_sync[OF g]
    by auto
qed

subsection \<open>Pacing\<close>

text \<open>
  C6: the pacing code reads the clock twice, once to decide whether to sleep and once to
  compute the length of the sleep. When the first reading is 29.5 seconds after the end
  of the request and the second one second later, the length is \<open>-0.5\<close>:
  \<^verbatim>\<open>time.sleep\<close> raises ValueError, nothing is slept and the sync ends with that
  exception.
\<close>

theorem pacing_negative_sleep:
  "outcome (sync_campaign_performance (state_of ''c1'' ''2021-01-05'') ''token'' ''acct'' ''c1''
       (world_of (report_send (report_body (Some 1) (Some [report_row ''2021-01-09''])))
          slow_clock))
     = Some (Some ValueError)
   \<and> fst (pace 0 (world_of srv (\<lambda>k. slow_clock (k + 2)))) = Some ValueError
   \<and> sleeps (trace (snd (pace 0 (world_of srv (\<lambda>k. slow_clock (k + 2)))))) = []"
  by (simp add: example_one_row(1) slow_clock_def pace_outcome)
     (simp add: pace_def Let_def now_def emit_fields time_sleep_def world_of_def slow_clock_def)

subsection \<open>The number of results\<close>





subsection \<open>An empty report\<close>

text \<open>
  C10: when the \<^verbatim>\<open>results\<close> of the response of a window are empty, the sync ends at
  that window with an exception, IndexError from \<^verbatim>\<open>performance[-1]\<close> when
  \<^verbatim>\<open>totalResults\<close> is there: the windows after it are not fetched, the state is the
  one before the window, and neither a state nor a record is written.
\<close>

theorem empty_results_raise:
  assumes "fst (report_request tok acct tn ep ef dr w) = Inr response"
    and "results response = Some []"
  shows "sync_windows st tok acct tn sid ep ef (dr # drs) w
           = sync_window st tok acct tn sid ep ef dr w
     \<and> fst (sync_windows st tok acct tn sid ep ef (dr # drs) w) \<noteq> None
     \<and> (totalResults response \<noteq> None \<longrightarrow>
          fst (sync_windows st tok acct tn sid ep ef (dr # drs) w) = Some IndexError)
     \<and> fst (snd (sync_windows st tok acct tn sid ep ef (dr # drs) w)) = st
     \<and> state_writes (trace (snd (snd (sync_windows st tok acct tn sid ep ef (dr # drs) w))))
         = state_writes (trace w)
     \<and> records (trace (snd (snd (sync_windows st tok acct tn sid ep ef (dr # drs) w))))
         = records (trace w)"
proof -
  let ?w3 = "snd (report_request tok acct tn ep ef dr w)"
  from process_report_empty[OF assms(2), of st tn sid ef ?w3]
  obtain e w' where pr: "process_report st tn sid ef response ?w3 = (Some e, st, w')"
    "totalResults response \<noteq> None \<longrightarrow> e = IndexError"
    "state_writes (trace w') = state_writes (trace ?w3)"
    "records (trace w') = records (trace ?w3)" by blast
  have sw: "sync_window st tok acct tn sid ep ef dr w = (Some e, st, w')"
    using assms(1) pr(1) by (simp add: sync_window_unfold)
  show ?thesis using sw pr by (simp add: report_request_frame')
qed

theorem empty_results_raise_witness:
  "fst (report_request ''token'' ''acct'' ''campaign_performance'' Map.empty Map.empty
        \<lparr>from_date = ymd2ord 2021 1 3, to_date = ymd2ord 2021 1 10\<rparr>
        (world_of (report_send (report_body (Some 0) (Some []))) steady_clock))
     = Inr (report_body (Some 0) (Some []))
   \<and> results (report_body (Some 0) (Some [])) = Some []
   \<and> fst (sync_windows (state_of ''c1'' ''2021-01-05'') ''token'' ''acct''
        ''campaign_performance'' ''c1'' Map.empty Map.empty
        [\<lparr>from_date = ymd2ord 2021 1 3, to_date = ymd2ord 2021 1 10\<rparr>]
        (world_of (report_send (report_body (Some 0) (Some []))) steady_clock))
     = Some IndexError
   \<and> fst (snd (sync_windows (state_of ''c1'' ''2021-01-05'') ''token'' ''acct''
        ''campaign_performance'' ''c1'' Map.empty Map.empty
        [\<lparr>from_date = ymd2ord 2021 1 3, to_date = ymd2ord 2021 1 10\<rparr>]
        (world_of (report_send (report_body (Some 0) (Some []))) steady_clock)))
     = state_of ''c1'' ''2021-01-05''
   \<and> state_writes (trace (snd (snd (sync_windows (state_of ''c1'' ''2021-01-05'') ''token''
        ''acct'' ''campaign_performance'' ''c1'' Map.empty Map.empty
        [\<lparr>from_date = ymd2ord 2021 1 3, to_date = ymd2ord 2021 1 10\<rparr>]
        (world_of (report_send (report_body (Some 0) (Some []))) steady_clock)))))
     = []"
proof -
  have h1: "fst (report_request ''token'' ''acct'' ''campaign_performance'' Map.empty Map.empty
        \<lparr>from_date = ymd2ord 2021 1 3, to_date = ymd2ord 2021 1 10\<rparr>
        (world_of (report_send (report_body (Some 0) (Some []))) steady_clock))
     = Inr (report_body (Some 0) (Some []))"
    by (rule example_request(1))
  have h2: "results (report_body (Some 0) (Some [])) = Some []"
    by (simp add: report_body_def)
  have t: "totalResults (report_body (Some 0) (Some [])) \<noteq> None"
    by (simp add: report_body_def)
  have e: "state_writes (trace (world_of (report_send (report_body (Some 0) (Some [])))
      steady_clock)) = []"
    by (simp add: world_of_def)
  show ?thesis
    using h1 h2 t e
      empty_results_raise [OF h1 h2, where st = "state_of ''c1'' ''2021-01-05''"
        and sid = "''c1''" and drs = "[]"]
    by (auto simp del: sync_windows.simps)
qed

subsection \<open>The campaign paginator\<close>

text \<open>A successful request takes one reply from the transport.\<close>

lemma request_ok_send:
  assumes "send w 0 (build_request u tok ps w) = Reply code body" "code < 400"
  shows "send (snd (request u tok ps w)) = (\<lambda>n. send w (Suc n))"
proof -
  obtain r1 w1 where once: "request_once u tok ps w = (r1, w1)" by fastforce
  have r1: "r1 = Inr \<lparr>status_code = code, content = body\<rparr>"
    using request_once_fst[of u tok ps w] once assms by simp
  have "request u tok ps w = (r1, w1)"
    unfolding request_def using once r1 by (intro retry_stop) auto
  then show ?thesis using request_once_world(1)[OF once] by simp
qed

lemma listing_send_shift: "(\<lambda>n. listing_send items (n + d)) = listing_send items"
  by (rule ext) (simp add: listing_send_def fun_eq_iff)

lemma page_ok:
  assumes "send w = listing_send items"
  shows "fst (get_campaigns_page account_id access_token offset w)
           = Inr (listing_page items offset)"
    and "send (snd (get_campaigns_page account_id access_token offset w)) = listing_send items"
proof -
  let ?u = "BASE_URL @ ''/marketers/'' @ account_id @ ''/campaigns''"
  let ?ps = "[''limit'' \<mapsto> PyInt MARKETERS_CAMPAIGNS_MAX_LIMIT, ''offset'' \<mapsto> PyInt offset]"
  have s: "send w 0 (build_request ?u access_token ?ps w)
             = Reply 200 (Some (listing_page items offset))"
    using assms by (simp add: listing_send_def offset_of_def build_request_def)
  have sh: "(\<lambda>n. listing_send items (Suc n)) = listing_send items"
    using listing_send_shift[of items 1] by simp
  show "fst (get_campaigns_page account_id access_token offset w)
           = Inr (listing_page items offset)"
    using request_ok(1)[OF s]
    by (simp add: get_campaigns_page_def split_beta json_of_def)
  show "send (snd (get_campaigns_page account_id access_token offset w)) = listing_send items"
    using request_ok(1)[OF s] request_ok_send[OF s] assms sh
    by (simp add: get_campaigns_page_def split_beta json_of_def)
qed

lemma yielded_below_ceiling:
  "list_all (\<lambda>p. \<exists>n. totalCount p = Some n \<and> n \<le> TAP_CAMPAIGN_COUNT_ERROR_CEILING)
     (fst (get_campaign_pages_loop consume account_id access_token offset w))"
proof (induction consume account_id access_token offset w rule: get_campaign_pages_loop.induct)
  case (1 consume account_id access_token offset w)
  show ?case
    apply (subst get_campaign_pages_loop.simps)
    using 1
    by (auto simp: Let_def split: prod.splits sum.splits option.splits)
qed

lemma loop_turn:
  assumes srv: "send w = listing_send items"
    and quiet: "\<And>page v. fst (consume page v) = None"
    and keeps: "\<And>page v. \<exists>d. send (snd (consume page v)) = (\<lambda>n. send v (n + d))"
    and small: "int (length items) \<le> TAP_CAMPAIGN_COUNT_ERROR_CEILING"
  shows "\<exists>w4. send w4 = listing_send items \<and>
     get_campaign_pages_loop consume account_id access_token offset w =
       (if offset + MARKETERS_CAMPAIGNS_MAX_LIMIT < int (length items) then
          (listing_page items offset #
             fst (get_campaign_pages_loop consume account_id access_token
                    (offset + MARKETERS_CAMPAIGNS_MAX_LIMIT) w4),
           snd (get_campaign_pages_loop consume account_id access_token
                    (offset + MARKETERS_CAMPAIGNS_MAX_LIMIT) w4))
        else ([listing_page items offset], None,
              emit (Log LInfo ''Finished retrieving `{}` campaigns'') w4))"
proof -
  let ?w1 = "emit (Log LInfo ''Retrieving campaigns from offset `{}`'') w"
  let ?w2 = "snd (get_campaigns_page account_id access_token offset ?w1)"
  let ?w3 = "emit (Log LInfo ''Retrieved offset `{}` campaigns out of `{}`'') ?w2"
  let ?w4 = "snd (consume (listing_page items offset) ?w3)"
  have s1: "send ?w1 = listing_send items" using srv by (simp add: emit_fields)
  note pg = page_ok[OF s1, of account_id access_token offset]
  have s3: "send ?w3 = listing_send items" using pg(2) by (simp add: emit_fields)
  obtain d where "send ?w4 = (\<lambda>n. send ?w3 (n + d))" using keeps by blast
  then have s4: "send ?w4 = listing_send items"
    using s3 listing_send_shift[of items d] by simp
  have t: "totalCount (listing_page items offset) = Some (int (length items))"
    by (simp add: listing_page_def)
  have "get_campaign_pages_loop consume account_id access_token offset w =
       (if offset + MARKETERS_CAMPAIGNS_MAX_LIMIT < int (length items) then
          (listing_page items offset #
             fst (get_campaign_pages_loop consume account_id access_token
                    (offset + MARKETERS_CAMPAIGNS_MAX_LIMIT) ?w4),
           snd (get_campaign_pages_loop consume account_id access_token
                    (offset + MARKETERS_CAMPAIGNS_MAX_LIMIT) ?w4))
        else ([listing_page items offset], None,
              emit (Log LInfo ''Finished retrieving `{}` campaigns'') ?w4))"
    apply (subst get_campaign_pages_loop.simps)
    using pg(1) t small
    by (simp add: Let_def split_beta quiet)
  then show ?thesis using s4 by blast
qed

lemma pages_step:
  assumes "50 < (n::nat)"
  shows "max 1 ((n + 49) div 50) = Suc (max 1 ((n - 50 + 49) div 50))"
proof -
  have a: "(n + 49) div 50 = Suc ((n - 1) div 50)"
    using assms div_add_self2[of 50 "n - 1"] by simp
  have b: "0 < (n - 1) div 50" using assms by (simp add: div_greater_zero_iff)
  have c: "n - 50 + 49 = n - 1" using assms by simp
  show ?thesis using a b by (simp add: c)
qed

lemma pages_last:
  assumes "(n::nat) \<le> 50"
  shows "max 1 ((n + 49) div 50) = 1"
proof -
  have "n + 49 < 2 * 50" using assms by simp
  then have "(n + 49) div 50 < 2" by (simp add: less_mult_imp_div_less)
  then show ?thesis by simp
qed

lemma loop_listing:
  assumes quiet: "\<And>page v. fst (consume page v) = None"
    and keeps: "\<And>page v. \<exists>d. send (snd (consume page v)) = (\<lambda>n. send v (n + d))"
    and small: "int (length items) \<le> TAP_CAMPAIGN_COUNT_ERROR_CEILING"
    and srv: "send w = listing_send items"
  shows "fst (get_campaign_pages_loop consume account_id access_token offset w)
           = map (\<lambda>k. listing_page items (offset + MARKETERS_CAMPAIGNS_MAX_LIMIT * int k))
               [0..<max 1 ((nat (int (length items) - offset) + 49) div 50)]
       \<and> fst (snd (get_campaign_pages_loop consume account_id access_token offset w)) = None"
  using srv
proof (induction "nat (int (length items) - offset)" arbitrary: offset w rule: less_induct)
  case less
  let ?P = MARKETERS_CAMPAIGNS_MAX_LIMIT
  let ?n = "nat (int (length items) - offset)"
  from loop_turn[where consume = consume and account_id = account_id
      and access_token = access_token and offset = offset, OF less.prems quiet keeps small]
  obtain w4 where s4: "send w4 = listing_send items"
    and eq: "get_campaign_pages_loop consume account_id access_token offset w =
       (if offset + ?P < int (length items) then
          (listing_page items offset #
             fst (get_campaign_pages_loop consume account_id access_token (offset + ?P) w4),
           snd (get_campaign_pages_loop consume account_id access_token (offset + ?P) w4))
        else ([listing_page items offset], None,
              emit (Log LInfo ''Finished retrieving `{}` campaigns'') w4))"
    by (elim exE conjE) (rule that)
  show ?case
  proof (cases "offset + ?P < int (length items)")
    case True
    then have big: "50 < ?n" by (simp add: MARKETERS_CAMPAIGNS_MAX_LIMIT_def)
    have n': "nat (int (length items) - (offset + ?P)) = ?n - 50"
      by (simp add: MARKETERS_CAMPAIGNS_MAX_LIMIT_def)
    let ?m = "max 1 ((?n - 50 + 49) div 50)"
    have lt: "nat (int (length items) - (offset + ?P)) < ?n" using big n' by simp
    note ih = less.hyps[OF lt s4, unfolded n']
    have pages: "fst (get_campaign_pages_loop consume account_id access_token offset w)
        = listing_page items offset #
            map (\<lambda>k. listing_page items (offset + ?P + ?P * int k)) [0..<?m]"
      and out: "fst (snd (get_campaign_pages_loop consume account_id access_token offset w))
        = None"
      using True ih by (simp_all only: eq if_True fst_conv snd_conv)
    have "map (\<lambda>k. listing_page items (offset + ?P * int k)) [0..<Suc ?m]
        = listing_page items (offset + ?P * int 0) #
            map (\<lambda>k. listing_page items (offset + ?P * int (Suc k))) [0..<?m]"
      by (simp only: upt_conv_Cons[OF zero_less_Suc] list.map map_Suc_upt[symmetric] map_map
            comp_def)
    also have "\<dots> = listing_page items offset #
            map (\<lambda>k. listing_page items (offset + ?P + ?P * int k)) [0..<?m]"
      by (simp add: algebra_simps)
    finally show ?thesis using pages out by (simp only: pages_step[OF big])
  next
    case False
    then have "?n \<le> 50" by (simp add: MARKETERS_CAMPAIGNS_MAX_LIMIT_def)
    from pages_last[OF this] show ?thesis using False by (simp add: eq)
  qed
qed

lemma concat_pages:
  "concat (map (\<lambda>k. take p (drop (p * k) xs)) [0..<m]) = take (p * m) xs"
proof (induction m)
  case 0
  show ?case by simp
next
  case (Suc m)
  have "take (p * Suc m) xs = take (p * m) xs @ take p (drop (p * m) xs)"
    by (metis take_add mult_Suc_right add.commute)
  then show ?case using Suc by simp
qed

lemma ceiling_pages: "nat \<lceil>real n / 50\<rceil> = (n + 49) div 50"
proof -
  have "\<lceil>real n / 50\<rceil> = \<lceil>(of_int (int n) :: real) / of_int 50\<rceil>" by simp
  also have "\<dots> = - (- int n div 50)" by (rule ceiling_divide_eq_div)
  finally show ?thesis by linarith
qed

lemma loop_ceiling:
  assumes "fst (get_campaigns_page account_id access_token offset
             (emit (Log LInfo ''Retrieving campaigns from offset `{}`'') w)) = Inr page"
    and "totalCount page = Some n"
    and "TAP_CAMPAIGN_COUNT_ERROR_CEILING < n"
  shows "get_campaign_pages_loop consume account_id access_token offset w
           = ([], Some (TooManyCampaigns n),
              emit (Log LError
                ''Tap found `{}` campaigns which is more than can be retrieved in the alloted time (`{}`).'')
                (snd (get_campaigns_page account_id access_token offset
                   (emit (Log LInfo ''Retrieving campaigns from offset `{}`'') w))))"
  apply (subst get_campaign_pages_loop.simps)
  using assms by (simp add: Let_def split_beta)

lemma listing_world:
  "send (world_of (listing_send items) laps) = listing_send items"
  "send (emit e (world_of (listing_send items) laps)) = listing_send items"
  by (simp_all add: world_of_def emit_fields)

lemma no_consume_quiet:
  "fst (no_consume page v) = None"
  "\<exists>d. send (snd (no_consume page v)) = (\<lambda>n. send v (n + d))"
  by (simp add: no_consume_def) (rule exI[of _ 0], simp add: no_consume_def)

lemma length_campaigns_of: "length (campaigns_of n) = n"
  by (simp add: campaigns_of_def)

lemma listing_run:
  assumes "int n \<le> TAP_CAMPAIGN_COUNT_ERROR_CEILING"
  shows "fst (get_campaign_pages no_consume account_id access_token
            (world_of (listing_send (campaigns_of n)) laps))
           = map (\<lambda>k. listing_page (campaigns_of n) (MARKETERS_CAMPAIGNS_MAX_LIMIT * int k))
               [0..<max 1 ((n + 49) div 50)]"
    and "fst (snd (get_campaign_pages no_consume account_id access_token
            (world_of (listing_send (campaigns_of n)) laps))) = None"
  using loop_listing[where consume = no_consume and items = "campaigns_of n"
      and w = "world_of (listing_send (campaigns_of n)) laps"
      and account_id = account_id and access_token = access_token and offset = 0,
      OF no_consume_quiet(1) no_consume_quiet(2) _ listing_world(1)] assms
  by (simp_all add: get_campaign_pages_def length_campaigns_of)

lemma page_fetch:
  assumes "\<And>req. send w 0 req = Reply 200 (Some j)"
  shows "fst (get_campaigns_page account_id access_token offset w) = Inr j"
    and "send (snd (get_campaigns_page account_id access_token offset w))
           = (\<lambda>n. send w (Suc n))"
proof -
  let ?u = "BASE_URL @ ''/marketers/'' @ account_id @ ''/campaigns''"
  let ?ps = "[''limit'' \<mapsto> PyInt MARKETERS_CAMPAIGNS_MAX_LIMIT, ''offset'' \<mapsto> PyInt offset]"
  have s: "send w 0 (build_request ?u access_token ?ps w) = Reply 200 (Some j)"
    by (rule assms)
  show "fst (get_campaigns_page account_id access_token offset w) = Inr j"
    using request_ok(1)[OF s]
    by (simp add: get_campaigns_page_def split_beta json_of_def)
  show "send (snd (get_campaigns_page account_id access_token offset w))
           = (\<lambda>n. send w (Suc n))"
    using request_ok(1)[OF s] request_ok_send[OF s]
    by (simp add: get_campaigns_page_def split_beta json_of_def)
qed

lemma loop_continues:
  assumes "fst (get_campaigns_page account_id access_token offset
             (emit (Log LInfo ''Retrieving campaigns from offset `{}`'') w)) = Inr page"
    and "totalCount page = Some n"
    and "n \<le> TAP_CAMPAIGN_COUNT_ERROR_CEILING"
    and "offset + MARKETERS_CAMPAIGNS_MAX_LIMIT < n"
    and "fst (consume page (emit (Log LInfo ''Retrieved offset `{}` campaigns out of `{}`'')
               (snd (get_campaigns_page account_id access_token offset
                  (emit (Log LInfo ''Retrieving campaigns from offset `{}`'') w))))) = None"
  shows "get_campaign_pages_loop consume account_id access_token offset w
           = (page # fst (get_campaign_pages_loop consume account_id access_token
                       (offset + MARKETERS_CAMPAIGNS_MAX_LIMIT)
                       (snd (consume page
                          (emit (Log LInfo ''Retrieved offset `{}` campaigns out of `{}`'')
                             (snd (get_campaigns_page account_id access_token offset
                                (emit (Log LInfo ''Retrieving campaigns from offset `{}`'')
                                   w))))))),
              snd (get_campaign_pages_loop consume account_id access_token
                       (offset + MARKETERS_CAMPAIGNS_MAX_LIMIT)
                       (snd (consume page
                          (emit (Log LInfo ''Retrieved offset `{}` campaigns out of `{}`'')
                             (snd (get_campaigns_page account_id access_token offset
                                (emit (Log LInfo ''Retrieving campaigns from offset `{}`'')
                                   w))))))))"
  apply (subst get_campaign_pages_loop.simps)
  using assms by (simp add: Let_def split_beta)

lemma loop_complete:
  "fst (snd (get_campaign_pages_loop consume account_id access_token offset w)) = None \<Longrightarrow>
     fst (get_campaign_pages_loop consume account_id access_token offset w) \<noteq> []
     \<and> (\<exists>m. totalCount (last (fst (get_campaign_pages_loop consume account_id access_token
                offset w))) = Some m
          \<and> m \<le> offset + MARKETERS_CAMPAIGNS_MAX_LIMIT
                * int (length (fst (get_campaign_pages_loop consume account_id access_token
                    offset w))))"
proof (induction "nat (TAP_CAMPAIGN_COUNT_ERROR_CEILING - offset)" arbitrary: offset w
    rule: less_induct)
  case less
  let ?w1 = "emit (Log LInfo ''Retrieving campaigns from offset `{}`'') w"
  let ?r = "fst (get_campaigns_page account_id access_token offset ?w1)"
  let ?w2 = "snd (get_campaigns_page account_id access_token offset ?w1)"
  let ?w3 = "emit (Log LInfo ''Retrieved offset `{}` campaigns out of `{}`'') ?w2"
  have unf: "get_campaign_pages_loop consume account_id access_token offset w =
     (case ?r of
        Inl e \<Rightarrow> ([], Some e, ?w2)
      | Inr campaign_page \<Rightarrow>
       (case totalCount campaign_page of
           None \<Rightarrow> ([], Some TypeError, ?w2)
         | Some total_count \<Rightarrow>
             if TAP_CAMPAIGN_COUNT_ERROR_CEILING < total_count then
               ([], Some (TooManyCampaigns total_count),
                emit (Log LError
                  ''Tap found `{}` campaigns which is more than can be retrieved in the alloted time (`{}`).'') ?w2)
             else
               (case fst (consume campaign_page ?w3) of
                  Some e \<Rightarrow> ([campaign_page], Some e, snd (consume campaign_page ?w3))
                | None \<Rightarrow>
                    if offset + MARKETERS_CAMPAIGNS_MAX_LIMIT < total_count then
                      (campaign_page #
                         fst (get_campaign_pages_loop consume account_id access_token
                                (offset + MARKETERS_CAMPAIGNS_MAX_LIMIT)
                                (snd (consume campaign_page ?w3))),
                       snd (get_campaign_pages_loop consume account_id access_token
                                (offset + MARKETERS_CAMPAIGNS_MAX_LIMIT)
                                (snd (consume campaign_page ?w3))))
                    else
                      ([campaign_page], None,
                       emit (Log LInfo ''Finished retrieving `{}` campaigns'')
                         (snd (consume campaign_page ?w3))))))"
    by (subst get_campaign_pages_loop.simps)
       (simp add: Let_def split_beta split: sum.splits option.splits)
  from less.prems obtain page n where p: "?r = Inr page" "totalCount page = Some n"
    "\<not> TAP_CAMPAIGN_COUNT_ERROR_CEILING < n" "fst (consume page ?w3) = None"
    by (auto simp: unf split: sum.splits option.splits if_splits)
  show ?case
  proof (cases "offset + MARKETERS_CAMPAIGNS_MAX_LIMIT < n")
    case False
    then show ?thesis using p by (simp add: unf)
  next
    case True
    let ?rest = "get_campaign_pages_loop consume account_id access_token
                   (offset + MARKETERS_CAMPAIGNS_MAX_LIMIT) (snd (consume page ?w3))"
    have eq: "get_campaign_pages_loop consume account_id access_token offset w
        = (page # fst ?rest, snd ?rest)"
      using p True by (simp add: unf)
    then have none: "fst (snd ?rest) = None" using less.prems by simp
    have lt: "nat (TAP_CAMPAIGN_COUNT_ERROR_CEILING - (offset + MARKETERS_CAMPAIGNS_MAX_LIMIT))
        < nat (TAP_CAMPAIGN_COUNT_ERROR_CEILING - offset)"
      using True p(3) by (simp add: MARKETERS_CAMPAIGNS_MAX_LIMIT_def)
    have ih: "fst ?rest \<noteq> [] \<and> (\<exists>m. totalCount (last (fst ?rest)) = Some m
          \<and> m \<le> offset + MARKETERS_CAMPAIGNS_MAX_LIMIT
                + MARKETERS_CAMPAIGNS_MAX_LIMIT * int (length (fst ?rest)))"
      by (rule less.hyps[OF lt none])
    then show ?thesis by (simp add: eq algebra_simps)
  qed
qed

text \<open>
  C4: when the page fetched at an offset reports a \<^verbatim>\<open>totalCount\<close> above the ceiling of 660,
  that turn of the paginator yields nothing and ends with the exception that carries
  the count; its world is the one after the fetch, with the error logged, so the
  consumer has not run on the page. A turn whose page is within the ceiling, is
  consumed without an exception and leaves more to fetch yields the page and goes on
  with the next turn, whose pages, exception and world are those of the run: an
  exception raised at a later offset ends the whole run. A run of
  \<^verbatim>\<open>get_campaign_pages\<close> that ends without an exception has yielded pages up to the
  count its last page reports, and every page a run has yielded reported a count of at
  most 660.
\<close>

theorem too_many_campaigns_raises:
  "(fst (get_campaigns_page account_id access_token offset
          (emit (Log LInfo ''Retrieving campaigns from offset `{}`'') w)) = Inr page
      \<and> totalCount page = Some n \<and> TAP_CAMPAIGN_COUNT_ERROR_CEILING < n \<longrightarrow>
        fst (get_campaign_pages_loop consume account_id access_token offset w) = []
        \<and> fst (snd (get_campaign_pages_loop consume account_id access_token offset w))
            = Some (TooManyCampaigns n)
        \<and> snd (snd (get_campaign_pages_loop consume account_id access_token offset w))
            = emit (Log LError
                ''Tap found `{}` campaigns which is more than can be retrieved in the alloted time (`{}`).'')
                (snd (get_campaigns_page account_id access_token offset
                   (emit (Log LInfo ''Retrieving campaigns from offset `{}`'') w))))
   \<and> (fst (get_campaigns_page account_id access_token offset
          (emit (Log LInfo ''Retrieving campaigns from offset `{}`'') w)) = Inr page
      \<and> totalCount page = Some n \<and> n \<le> TAP_CAMPAIGN_COUNT_ERROR_CEILING
      \<and> offset + MARKETERS_CAMPAIGNS_MAX_LIMIT < n
      \<and> fst (consume page (emit (Log LInfo ''Retrieved offset `{}` campaigns out of `{}`'')
               (snd (get_campaigns_page account_id access_token offset
                  (emit (Log LInfo ''Retrieving campaigns from offset `{}`'') w))))) = None
      \<longrightarrow>
        get_campaign_pages_loop consume account_id access_token offset w
           = (page # fst (get_campaign_pages_loop consume account_id access_token
                       (offset + MARKETERS_CAMPAIGNS_MAX_LIMIT)
                       (snd (consume page
                          (emit (Log LInfo ''Retrieved offset `{}` campaigns out of `{}`'')
                             (snd (get_campaigns_page account_id access_token offset
                                (emit (Log LInfo ''Retrieving campaigns from offset `{}`'')
                                   w))))))),
              snd (get_campaign_pages_loop consume account_id access_token
                       (offset + MARKETERS_CAMPAIGNS_MAX_LIMIT)
                       (snd (consume page
                          (emit (Log LInfo ''Retrieved offset `{}` campaigns out of `{}`'')
                             (snd (get_campaigns_page account_id access_token offset
                                (emit (Log LInfo ''Retrieving campaigns from offset `{}`'')
                                   w)))))))))
   \<and> (fst (snd (get_campaign_pages consume account_id access_token w)) = None \<longrightarrow>
        fst (get_campaign_pages consume account_id access_token w) \<noteq> []
        \<and> (\<exists>m. totalCount (last (fst (get_campaign_pages consume account_id access_token w)))
                 = Some m
             \<and> m \<le> MARKETERS_CAMPAIGNS_MAX_LIMIT
                   * int (length (fst (get_campaign_pages consume account_id access_token w)))))
   \<and> (\<forall>p \<in> set (fst (get_campaign_pages consume account_id access_token w)).
         \<exists>m. totalCount p = Some m \<and> m \<le> TAP_CAMPAIGN_COUNT_ERROR_CEILING)"
proof (intro conjI impI)
  assume a: "fst (get_campaigns_page account_id access_token offset
          (emit (Log LInfo ''Retrieving campaigns from offset `{}`'') w)) = Inr page
      \<and> totalCount page = Some n \<and> TAP_CAMPAIGN_COUNT_ERROR_CEILING < n"
  have "get_campaign_pages_loop consume account_id access_token offset w
           = ([], Some (TooManyCampaigns n),
              emit (Log LError
                ''Tap found `{}` campaigns which is more than can be retrieved in the alloted time (`{}`).'')
                (snd (get_campaigns_page account_id access_token offset
                   (emit (Log LInfo ''Retrieving campaigns from offset `{}`'') w))))"
    by (rule loop_ceiling[OF a[THEN conjunct1] a[THEN conjunct2, THEN conjunct1]
          a[THEN conjunct2, THEN conjunct2]])
  then show "fst (get_campaign_pages_loop consume account_id access_token offset w) = []"
    and "fst (snd (get_campaign_pages_loop consume account_id access_token offset w))
            = Some (TooManyCampaigns n)"
    and "snd (snd (get_campaign_pages_loop consume account_id access_token offset w))
            = emit (Log LError
                ''Tap found `{}` campaigns which is more than can be retrieved in the alloted time (`{}`).'')
                (snd (get_campaigns_page account_id access_token offset
                   (emit (Log LInfo ''Retrieving campaigns from offset `{}`'') w)))"
    by simp_all
next
  assume b: "fst (get_campaigns_page account_id access_token offset
          (emit (Log LInfo ''Retrieving campaigns from offset `{}`'') w)) = Inr page
      \<and> totalCount page = Some n \<and> n \<le> TAP_CAMPAIGN_COUNT_ERROR_CEILING
      \<and> offset + MARKETERS_CAMPAIGNS_MAX_LIMIT < n
      \<and> fst (consume page (emit (Log LInfo ''Retrieved offset `{}` campaigns out of `{}`'')
               (snd (get_campaigns_page account_id access_token offset
                  (emit (Log LInfo ''Retrieving campaigns from offset `{}`'') w))))) = None"
  show "get_campaign_pages_loop consume account_id access_token offset w
           = (page # fst (get_campaign_pages_loop consume account_id access_token
                       (offset + MARKETERS_CAMPAIGNS_MAX_LIMIT)
                       (snd (consume page
                          (emit (Log LInfo ''Retrieved offset `{}` campaigns out of `{}`'')
                             (snd (get_campaigns_page account_id access_token offset
                                (emit (Log LInfo ''Retrieving campaigns from offset `{}`'')
                                   w))))))),
              snd (get_campaign_pages_loop consume account_id access_token
                       (offset + MARKETERS_CAMPAIGNS_MAX_LIMIT)
                       (snd (consume page
                          (emit (Log LInfo ''Retrieved offset `{}` campaigns out of `{}`'')
                             (snd (get_campaigns_page account_id access_token offset
                                (emit (Log LInfo ''Retrieving campaigns from offset `{}`'')
                                   w))))))))"
    by (rule loop_continues[where consume = consume,
          OF b[THEN conjunct1] b[THEN conjunct2, THEN conjunct1]
          b[THEN conjunct2, THEN conjunct2, THEN conjunct1]
          b[THEN conjunct2, THEN conjunct2, THEN conjunct2, THEN conjunct1]
          b[THEN conjunct2, THEN conjunct2, THEN conjunct2, THEN conjunct2]])
next
  assume c: "fst (snd (get_campaign_pages consume account_id access_token w)) = None"
  from loop_complete[of consume account_id access_token 0 w] c
  show "fst (get_campaign_pages consume account_id access_token w) \<noteq> []"
    and "\<exists>m. totalCount (last (fst (get_campaign_pages consume account_id access_token w)))
                 = Some m
             \<and> m \<le> MARKETERS_CAMPAIGNS_MAX_LIMIT
                   * int (length (fst (get_campaign_pages consume account_id access_token w)))"
    by (simp_all add: get_campaign_pages_def)
next
  show "\<forall>p \<in> set (fst (get_campaign_pages consume account_id access_token w)).
         \<exists>m. totalCount p = Some m \<and> m \<le> TAP_CAMPAIGN_COUNT_ERROR_CEILING"
    using yielded_below_ceiling[of consume account_id access_token 0 w]
    by (simp add: get_campaign_pages_def list_all_iff)
qed

theorem too_many_campaigns_raises_witness:
  "fst (get_campaigns_page ''acct'' ''token'' 0
          (emit (Log LInfo ''Retrieving campaigns from offset `{}`'')
             (world_of (listing_send (campaigns_of 661)) steady_clock)))
     = Inr (listing_page (campaigns_of 661) 0)
   \<and> totalCount (listing_page (campaigns_of 661) 0) = Some 661
   \<and> TAP_CAMPAIGN_COUNT_ERROR_CEILING < 661
   \<and> fst (get_campaign_pages_loop no_consume ''acct'' ''token'' 0
        (world_of (listing_send (campaigns_of 661)) steady_clock)) = []
   \<and> fst (snd (get_campaign_pages_loop no_consume ''acct'' ''token'' 0
        (world_of (listing_send (campaigns_of 661)) steady_clock)))
       = Some (TooManyCampaigns 661)
   \<and> fst (get_campaigns_page ''acct'' ''token'' 0
          (emit (Log LInfo ''Retrieving campaigns from offset `{}`'')
             (world_of growing_send steady_clock)))
     = Inr (count_page 100)
   \<and> totalCount (count_page 100) = Some 100
   \<and> 100 \<le> TAP_CAMPAIGN_COUNT_ERROR_CEILING
   \<and> 0 + MARKETERS_CAMPAIGNS_MAX_LIMIT < 100
   \<and> fst (get_campaigns_page ''acct'' ''token'' (0 + MARKETERS_CAMPAIGNS_MAX_LIMIT)
          (emit (Log LInfo ''Retrieving campaigns from offset `{}`'')
             (snd (no_consume (count_page 100)
                (emit (Log LInfo ''Retrieved offset `{}` campaigns out of `{}`'')
                   (snd (get_campaigns_page ''acct'' ''token'' 0
                      (emit (Log LInfo ''Retrieving campaigns from offset `{}`'')
                         (world_of growing_send steady_clock)))))))))
     = Inr (count_page 700)
   \<and> totalCount (count_page 700) = Some 700
   \<and> TAP_CAMPAIGN_COUNT_ERROR_CEILING < 700
   \<and> fst (get_campaign_pages no_consume ''acct'' ''token''
        (world_of growing_send steady_clock)) = [count_page 100]
   \<and> fst (snd (get_campaign_pages no_consume ''acct'' ''token''
        (world_of growing_send steady_clock))) = Some (TooManyCampaigns 700)
   \<and> fst (snd (get_campaign_pages no_consume ''acct'' ''token''
        (world_of (listing_send (campaigns_of 120)) steady_clock))) = None
   \<and> length (fst (get_campaign_pages no_consume ''acct'' ''token''
        (world_of (listing_send (campaigns_of 120)) steady_clock))) = 3
   \<and> totalCount (last (fst (get_campaign_pages no_consume ''acct'' ''token''
        (world_of (listing_send (campaigns_of 120)) steady_clock)))) = Some 120
   \<and> list_all (\<lambda>p. \<exists>m. totalCount p = Some m \<and> m \<le> TAP_CAMPAIGN_COUNT_ERROR_CEILING)
        (fst (get_campaign_pages no_consume ''acct'' ''token''
           (world_of (listing_send (campaigns_of 120)) steady_clock)))"
proof -
  let ?G = "world_of growing_send steady_clock"
  let ?G1 = "emit (Log LInfo ''Retrieving campaigns from offset `{}`'') ?G"
  let ?G3 = "emit (Log LInfo ''Retrieved offset `{}` campaigns out of `{}`'')
               (snd (get_campaigns_page ''acct'' ''token'' 0 ?G1))"
  let ?G4 = "snd (no_consume (count_page 100) ?G3)"
  let ?G5 = "emit (Log LInfo ''Retrieving campaigns from offset `{}`'') ?G4"
  have p: "fst (get_campaigns_page ''acct'' ''token'' 0
          (emit (Log LInfo ''Retrieving campaigns from offset `{}`'')
             (world_of (listing_send (campaigns_of 661)) steady_clock)))
     = Inr (listing_page (campaigns_of 661) 0)"
    by (rule page_ok(1)[OF listing_world(2)])
  have t: "totalCount (listing_page (campaigns_of 661) 0) = Some 661"
    by (simp add: listing_page_def length_campaigns_of)
  have c: "TAP_CAMPAIGN_COUNT_ERROR_CEILING < 661" "TAP_CAMPAIGN_COUNT_ERROR_CEILING < 700"
    "100 \<le> TAP_CAMPAIGN_COUNT_ERROR_CEILING" "0 + MARKETERS_CAMPAIGNS_MAX_LIMIT < 100"
    by (simp_all add: TAP_CAMPAIGN_COUNT_ERROR_CEILING_def MARKETERS_CAMPAIGNS_MAX_LIMIT_def)
  have g1: "send ?G1 0 req = Reply 200 (Some (count_page 100))" for req
    by (simp add: emit_fields world_of_def growing_send_def)
  have f1: "fst (get_campaigns_page ''acct'' ''token'' 0 ?G1) = Inr (count_page 100)"
    by (rule page_fetch(1)[OF g1])
  have g5: "send ?G5 0 req = Reply 200 (Some (count_page 700))" for req
    using page_fetch(2)[OF g1, of "''acct''" "''token''" 0]
    by (simp add: emit_fields no_consume_def world_of_def growing_send_def)
  have f5: "fst (get_campaigns_page ''acct'' ''token'' (0 + MARKETERS_CAMPAIGNS_MAX_LIMIT) ?G5)
      = Inr (count_page 700)"
    by (rule page_fetch(1)[OF g5])
  have k: "totalCount (count_page n) = Some n" for n by (simp add: count_page_def)
  have q: "fst (no_consume page v) = None" for page v by (simp add: no_consume_def)
  have l: "fst (get_campaign_pages no_consume ''acct'' ''token''
        (world_of (listing_send (campaigns_of 120)) steady_clock))
      = [listing_page (campaigns_of 120) 0, listing_page (campaigns_of 120) 50,
         listing_page (campaigns_of 120) 100]"
    "fst (snd (get_campaign_pages no_consume ''acct'' ''token''
        (world_of (listing_send (campaigns_of 120)) steady_clock))) = None"
    by (simp_all add: listing_run TAP_CAMPAIGN_COUNT_ERROR_CEILING_def
          MARKETERS_CAMPAIGNS_MAX_LIMIT_def upt_rec)
  have lt: "totalCount (listing_page (campaigns_of 120) 100) = Some 120"
    by (simp add: listing_page_def length_campaigns_of)
  note over = too_many_campaigns_raises [where account_id = "''acct''"
      and access_token = "''token''" and offset = 0
      and w = "world_of (listing_send (campaigns_of 661)) steady_clock"
      and page = "listing_page (campaigns_of 661) 0" and n = 661 and consume = no_consume,
      THEN conjunct1, rule_format, OF conjI[OF p conjI[OF t c(1)]]]
  note later = too_many_campaigns_raises [where account_id = "''acct''"
      and access_token = "''token''" and offset = "0 + MARKETERS_CAMPAIGNS_MAX_LIMIT"
      and w = ?G4 and page = "count_page 700" and n = 700 and consume = no_consume,
      THEN conjunct1, rule_format, OF conjI[OF f5 conjI[OF k c(2)]]]
  note first = too_many_campaigns_raises [where account_id = "''acct''"
      and access_token = "''token''" and offset = 0
      and w = ?G and page = "count_page 100" and n = 100 and consume = no_consume,
      THEN conjunct2, THEN conjunct1, rule_format,
      OF conjI[OF f1 conjI[OF k conjI[OF c(3) conjI[OF c(4) q]]]]]
  note whole = too_many_campaigns_raises [where account_id = "''acct''"
      and access_token = "''token''"
      and w = "world_of (listing_send (campaigns_of 120)) steady_clock"
      and consume = no_consume, THEN conjunct2, THEN conjunct2]
  have run: "fst (get_campaign_pages no_consume ''acct'' ''token'' ?G) = [count_page 100]"
    "fst (snd (get_campaign_pages no_consume ''acct'' ''token'' ?G))
       = Some (TooManyCampaigns 700)"
    using first later by (simp_all add: get_campaign_pages_def)
  show ?thesis
    using p t c f1 f5 k run over whole l lt
    by (simp add: list_all_iff)
qed

lemma page_items_listing:
  "page_items (listing_page items (MARKETERS_CAMPAIGNS_MAX_LIMIT * int k))
     = take 50 (drop (50 * k) items)"
  by (simp add: page_items_def listing_page_def MARKETERS_CAMPAIGNS_MAX_LIMIT_def nat_mult_distrib)

lemma items_of_pages:
  assumes "length items \<le> 50 * m"
  shows "concat (map page_items
           (map (\<lambda>k. listing_page items (MARKETERS_CAMPAIGNS_MAX_LIMIT * int k)) [0..<m]))
         = items"
  using assms by (simp add: comp_def page_items_listing concat_pages)

lemma pages_cover: "(n::nat) \<le> 50 * max 1 ((n + 49) div 50)"
proof -
  have "n \<le> 50 * ((n + 49) div 50)" by linarith
  also have "\<dots> \<le> 50 * max 1 ((n + 49) div 50)" by simp
  finally show ?thesis .
qed

text \<open>
  C3, as amended: for a listing of \<open>N \<le> 660\<close> campaigns, served in pages of
  \<^verbatim>\<open>MARKETERS_CAMPAIGNS_MAX_LIMIT\<close> = 50, and a consumer that raises nothing,
  \<^verbatim>\<open>get_campaign_pages\<close> ends normally and yields the pages at the offsets 0, 50, 100, ...:
  \<open>ceil(N / 50)\<close> of them, and one page when the listing is empty. The items of the
  pages, one after the other, are the listing. For a listing of more than 660 campaigns
  it yields no page and ends with the exception that carries the count.
\<close>

theorem pages_of_listing:
  assumes "send w = listing_send items"
    and "\<And>page v. fst (consume page v) = None"
    and "\<And>page v. \<exists>d. send (snd (consume page v)) = (\<lambda>n. send v (n + d))"
  shows "(int (length items) \<le> TAP_CAMPAIGN_COUNT_ERROR_CEILING \<longrightarrow>
       fst (get_campaign_pages consume account_id access_token w)
           = map (\<lambda>k. listing_page items (MARKETERS_CAMPAIGNS_MAX_LIMIT * int k))
               [0..<max 1 (nat \<lceil>real (length items) / real_of_int MARKETERS_CAMPAIGNS_MAX_LIMIT\<rceil>)]
     \<and> length (fst (get_campaign_pages consume account_id access_token w))
           = max 1 (nat \<lceil>real (length items) / real_of_int MARKETERS_CAMPAIGNS_MAX_LIMIT\<rceil>)
     \<and> fst (snd (get_campaign_pages consume account_id access_token w)) = None
     \<and> concat (map page_items (fst (get_campaign_pages consume account_id access_token w)))
           = items)
   \<and> (TAP_CAMPAIGN_COUNT_ERROR_CEILING < int (length items) \<longrightarrow>
       fst (get_campaign_pages consume account_id access_token w) = []
     \<and> fst (snd (get_campaign_pages consume account_id access_token w))
           = Some (TooManyCampaigns (int (length items))))"
proof (intro conjI impI)
  assume small: "int (length items) \<le> TAP_CAMPAIGN_COUNT_ERROR_CEILING"
  let ?m = "max 1 ((length items + 49) div 50)"
  have c: "nat \<lceil>real (length items) / real_of_int MARKETERS_CAMPAIGNS_MAX_LIMIT\<rceil>
      = (length items + 49) div 50"
    using ceiling_pages[of "length items"] by (simp add: MARKETERS_CAMPAIGNS_MAX_LIMIT_def)
  from loop_listing[where consume = consume and items = items and w = w
      and account_id = account_id and access_token = access_token and offset = 0,
      OF assms(2) assms(3) small assms(1)]
  have pages: "fst (get_campaign_pages consume account_id access_token w)
      = map (\<lambda>k. listing_page items (MARKETERS_CAMPAIGNS_MAX_LIMIT * int k)) [0..<?m]"
    and out: "fst (snd (get_campaign_pages consume account_id access_token w)) = None"
    by (simp_all add: get_campaign_pages_def)
  have all: "concat (map page_items (fst (get_campaign_pages consume account_id access_token w)))
      = items"
    unfolding pages by (rule items_of_pages[OF pages_cover])
  show "fst (get_campaign_pages consume account_id access_token w)
           = map (\<lambda>k. listing_page items (MARKETERS_CAMPAIGNS_MAX_LIMIT * int k))
               [0..<max 1 (nat \<lceil>real (length items) / real_of_int MARKETERS_CAMPAIGNS_MAX_LIMIT\<rceil>)]"
    and "length (fst (get_campaign_pages consume account_id access_token w))
           = max 1 (nat \<lceil>real (length items) / real_of_int MARKETERS_CAMPAIGNS_MAX_LIMIT\<rceil>)"
    and "fst (snd (get_campaign_pages consume account_id access_token w)) = None"
    and "concat (map page_items (fst (get_campaign_pages consume account_id access_token w)))
           = items"
    using pages out all by (simp_all add: c)
next
  assume big: "TAP_CAMPAIGN_COUNT_ERROR_CEILING < int (length items)"
  have s1: "send (emit (Log LInfo ''Retrieving campaigns from offset `{}`'') w)
      = listing_send items"
    using assms(1) by (simp add: emit_fields)
  have t: "totalCount (listing_page items 0) = Some (int (length items))"
    by (simp add: listing_page_def)
  from loop_ceiling[where consume = consume, OF page_ok(1)[OF s1] t big]
  show "fst (get_campaign_pages consume account_id access_token w) = []"
    and "fst (snd (get_campaign_pages consume account_id access_token w))
           = Some (TooManyCampaigns (int (length items)))"
    by (simp_all add: get_campaign_pages_def)
qed

text \<open>
  C3 as stated counts \<open>ceil(N / P)\<close> pages for every \<open>N\<close>. An empty listing gives one
  page, not none: the first page is fetched and yielded before the count is looked at.
  A listing of 661 campaigns gives no page, not 14: the ceiling of 660 ends the run.
\<close>

theorem pages_of_empty_and_oversized_listing:
  "length (fst (get_campaign_pages no_consume ''acct'' ''token''
      (world_of (listing_send (campaigns_of 0)) steady_clock))) = 1
   \<and> nat \<lceil>real (length (campaigns_of 0)) / real_of_int MARKETERS_CAMPAIGNS_MAX_LIMIT\<rceil> = 0
   \<and> length (fst (get_campaign_pages no_consume ''acct'' ''token''
      (world_of (listing_send (campaigns_of 661)) steady_clock))) = 0
   \<and> nat \<lceil>real (length (campaigns_of 661)) / real_of_int MARKETERS_CAMPAIGNS_MAX_LIMIT\<rceil> = 14"
proof -
  have p: "fst (get_campaigns_page ''acct'' ''token'' 0
          (emit (Log LInfo ''Retrieving campaigns from offset `{}`'')
             (world_of (listing_send (campaigns_of 661)) steady_clock)))
     = Inr (listing_page (campaigns_of 661) 0)"
    by (rule page_ok(1)[OF listing_world(2)])
  have t: "totalCount (listing_page (campaigns_of 661) 0) = Some 661"
    by (simp add: listing_page_def length_campaigns_of)
  have c: "TAP_CAMPAIGN_COUNT_ERROR_CEILING < 661"
    by (simp add: TAP_CAMPAIGN_COUNT_ERROR_CEILING_def)
  have e: "length (fst (get_campaign_pages no_consume ''acct'' ''token''
      (world_of (listing_send (campaigns_of 0)) steady_clock))) = 1"
    by (simp add: listing_run(1) TAP_CAMPAIGN_COUNT_ERROR_CEILING_def)
  have o: "fst (get_campaign_pages no_consume ''acct'' ''token''
      (world_of (listing_send (campaigns_of 661)) steady_clock)) = []"
    by (simp add: get_campaign_pages_def loop_ceiling[OF p t c])
  show ?thesis
    by (simp add: e o length_campaigns_of ceiling_pages MARKETERS_CAMPAIGNS_MAX_LIMIT_def)
qed

theorem pages_of_listing_witness:
  "send (world_of (listing_send (campaigns_of 120)) steady_clock)
     = listing_send (campaigns_of 120)
   \<and> (\<forall>page v. fst (no_consume page v) = None)
   \<and> (\<forall>page v. \<exists>d. send (snd (no_consume page v)) = (\<lambda>n. send v (n + d)))
   \<and> int (length (campaigns_of 120)) \<le> TAP_CAMPAIGN_COUNT_ERROR_CEILING
   \<and> fst (get_campaign_pages no_consume ''acct'' ''token''
        (world_of (listing_send (campaigns_of 120)) steady_clock))
       = [listing_page (campaigns_of 120) 0, listing_page (campaigns_of 120) 50,
          listing_page (campaigns_of 120) 100]
   \<and> fst (snd (get_campaign_pages no_consume ''acct'' ''token''
        (world_of (listing_send (campaigns_of 120)) steady_clock))) = None
   \<and> concat (map page_items (fst (get_campaign_pages no_consume ''acct'' ''token''
        (world_of (listing_send (campaigns_of 120)) steady_clock))))
       = campaigns_of 120
   \<and> send (world_of (listing_send (campaigns_of 700)) steady_clock)
     = listing_send (campaigns_of 700)
   \<and> TAP_CAMPAIGN_COUNT_ERROR_CEILING < int (length (campaigns_of 700))
   \<and> fst (get_campaign_pages no_consume ''acct'' ''token''
        (world_of (listing_send (campaigns_of 700)) steady_clock)) = []
   \<and> fst (snd (get_campaign_pages no_consume ''acct'' ''token''
        (world_of (listing_send (campaigns_of 700)) steady_clock)))
       = Some (TooManyCampaigns 700)"
proof -
  have s: "send (world_of (listing_send items) steady_clock) = listing_send items" for items
    by (rule listing_world(1))
  have l: "int (length (campaigns_of 120)) \<le> TAP_CAMPAIGN_COUNT_ERROR_CEILING"
    "TAP_CAMPAIGN_COUNT_ERROR_CEILING < int (length (campaigns_of 700))"
    by (simp_all add: length_campaigns_of TAP_CAMPAIGN_COUNT_ERROR_CEILING_def)
  have m: "nat \<lceil>real (length (campaigns_of 120)) / 50\<rceil> = 3"
    by (simp add: length_campaigns_of ceiling_pages)
  have u: "[0..<3] = [0, 1, 2]" by (simp add: upt_rec)
  show ?thesis
    using s l no_consume_quiet
      pages_of_listing [where consume = no_consume and account_id = "''acct''"
        and access_token = "''token''", OF s no_consume_quiet(1) no_consume_quiet(2),
        of "campaigns_of 120"]
      pages_of_listing [where consume = no_consume and account_id = "''acct''"
        and access_token = "''token''", OF s no_consume_quiet(1) no_consume_quiet(2),
        of "campaigns_of 700"]
    by (auto simp: m u MARKETERS_CAMPAIGNS_MAX_LIMIT_def length_campaigns_of)
qed

end
